theory Spec2Isabelle
  imports Complex_Main "HOL-Library.Log_Nat"
begin

section \<open>Token bucket rate limiter\<close>

text \<open>
  The class \<^verbatim>\<open>TokenBucket\<close> of the client. JavaScript runs every callback to completion
  on one thread, so the behaviour of a bucket under concurrent callers is the interleaving
  of two kinds of atomic events: a caller invokes \<^verbatim>\<open>acquire()\<close>, or the timer that
  \<^verbatim>\<open>tick\<close> set with \<^verbatim>\<open>setTimeout\<close> fires.

  The record holds the six fields of the class, followed by what the bucket did to the
  runtime around it: how often it read \<^verbatim>\<open>Date.now()\<close>, the delays of the
  \<^verbatim>\<open>setTimeout(tick, waitMs)\<close> calls still pending, and the resolvers it called, in
  the order of the calls. A waiting caller is the natural number that names its promise's
  \<^verbatim>\<open>resolve\<close>. Numbers are IEEE doubles in the source and exact reals here: the sums,
  products and quotients of the bucket are exact where the source rounds them.

  The clock is a function: \<open>clock n\<close> is what the \<open>n\<close>-th call of \<^verbatim>\<open>Date.now()\<close>
  returns. \<^verbatim>\<open>Date.now()\<close> is the wall clock, which the system may set back.
\<close>

record TokenBucket =
  capacity :: real
  tokens :: real
  refillRate :: real
  lastRefill :: real
  queue :: "nat list"
  processing :: bool
  reads :: nat
  timers :: "real list"
  resolved :: "nat list"

definition TokenBucket_new :: "(nat \<Rightarrow> real) \<Rightarrow> real \<Rightarrow> real \<Rightarrow> TokenBucket" where
  "TokenBucket_new clock cap rate =
     \<lparr>capacity = cap, tokens = cap, refillRate = rate, lastRefill = clock 0,
      queue = [], processing = False, reads = 1, timers = [], resolved = []\<rparr>"

text \<open>\<^verbatim>\<open>_refill()\<close>: one reading of the clock, the tokens for the time elapsed, clamped.\<close>

definition refill :: "(nat \<Rightarrow> real) \<Rightarrow> TokenBucket \<Rightarrow> TokenBucket" where
  "refill clock b =
     (let now = clock (reads b);
          elapsed = now - lastRefill b
      in b\<lparr>tokens := min (capacity b) (tokens b + elapsed * refillRate b),
           lastRefill := now,
           reads := Suc (reads b)\<rparr>)"

text \<open>
  The closure \<^verbatim>\<open>tick\<close> of \<^verbatim>\<open>_process()\<close>. It calls itself after each grant and
  returns when the queue is empty or when it has set a timer. The division by
  \<open>refillRate\<close> is the source's; for a rate of zero JavaScript gives \<^verbatim>\<open>Infinity\<close>
  where HOL gives \<open>0\<close>, so statements about the delay assume a positive rate.
\<close>

function tick :: "(nat \<Rightarrow> real) \<Rightarrow> TokenBucket \<Rightarrow> TokenBucket" where
  "tick clock b =
     (case queue b of
        [] \<Rightarrow> b\<lparr>processing := False\<rparr>
      | q # qs \<Rightarrow>
          (let r = refill clock b in
           if tokens r \<ge> 1
           then tick clock (r\<lparr>tokens := tokens r - 1, queue := qs, resolved := resolved r @ [q]\<rparr>)
           else r\<lparr>timers := timers r @ [(1 - tokens r) / refillRate r]\<rparr>))"
  by pat_completeness auto
termination
  by (relation "measure (\<lambda>(clock, b). length (queue b))") (auto simp: refill_def Let_def)

definition process :: "(nat \<Rightarrow> real) \<Rightarrow> TokenBucket \<Rightarrow> TokenBucket" where
  "process clock b = (if processing b then b else tick clock (b\<lparr>processing := True\<rparr>))"

text \<open>\<^verbatim>\<open>acquire()\<close>: the promise's executor pushes the resolver and calls \<^verbatim>\<open>_process()\<close>.\<close>

definition acquire :: "(nat \<Rightarrow> real) \<Rightarrow> nat \<Rightarrow> TokenBucket \<Rightarrow> TokenBucket" where
  "acquire clock i b = process clock (b\<lparr>queue := queue b @ [i]\<rparr>)"

text \<open>
  The events of a bucket. A timer can fire only while one is pending; with none pending
  the event does not happen and the state stays as it is.
\<close>

datatype event = Acquire nat | TimerFires

fun step :: "(nat \<Rightarrow> real) \<Rightarrow> event \<Rightarrow> TokenBucket \<Rightarrow> TokenBucket" where
  "step clock (Acquire i) b = acquire clock i b"
| "step clock TimerFires b =
     (case timers b of [] \<Rightarrow> b | d # ds \<Rightarrow> tick clock (b\<lparr>timers := ds\<rparr>))"

definition run :: "(nat \<Rightarrow> real) \<Rightarrow> event list \<Rightarrow> TokenBucket \<Rightarrow> TokenBucket" where
  "run clock evs b = fold (step clock) evs b"

fun arrivals :: "event list \<Rightarrow> nat list" where
  "arrivals [] = []"
| "arrivals (Acquire i # evs) = i # arrivals evs"
| "arrivals (TimerFires # evs) = arrivals evs"

text \<open>
  Two conditions on a bucket between events. The drain loop is suspended on a timer
  exactly when the flag is set, there is at most one such timer, and the flag is set
  exactly when somebody waits. The timestamp of the last refill is the latest reading of
  the clock.
\<close>

definition drain_inv :: "TokenBucket \<Rightarrow> bool" where
  "drain_inv b \<longleftrightarrow>
     (processing b \<longleftrightarrow> timers b \<noteq> []) \<and> length (timers b) \<le> 1 \<and>
     (processing b \<longleftrightarrow> queue b \<noteq> [])"

definition clock_inv :: "(nat \<Rightarrow> real) \<Rightarrow> TokenBucket \<Rightarrow> bool" where
  "clock_inv clock b \<longleftrightarrow> 1 \<le> reads b \<and> lastRefill b = clock (reads b - 1)"

section \<open>JavaScript values\<close>

text \<open>
  Numbers are IEEE doubles. A finite double is the real number it stands for (the sign of
  zero is left out); the three values that are not real numbers are kept apart.
\<close>

datatype jsnum = Finite real | NaN | PosInf | NegInf

text \<open>
  The double nearest to a real number, ties to the even significand: 53 binary digits,
  exponents from \<open>-1022\<close> to \<open>1023\<close>, smaller numbers in steps of \<open>2\<^sup>-\<^sup>1\<^sup>0\<^sup>7\<^sup>4\<close>, and
  infinity from \<open>2\<^sup>1\<^sup>0\<^sup>2\<^sup>4\<close> on. The conversion of a numeric string, the product of
  two numbers and the quotient that gives the rate of a bucket round with it.
\<close>

definition pow2 :: "int \<Rightarrow> real" where
  "pow2 e = (if 0 \<le> e then 2 ^ nat e else 1 / 2 ^ nat (- e))"

definition round_half_even :: "real \<Rightarrow> int" where
  "round_half_even q =
     (let f = \<lfloor>q\<rfloor> in
      if q - of_int f < 1 / 2 then f
      else if 1 / 2 < q - of_int f then f + 1
      else if even f then f else f + 1)"

definition to_double :: "real \<Rightarrow> jsnum" where
  "to_double x =
     (if x = 0 then Finite 0
      else
        (let e = max \<lfloor>log 2 \<bar>x\<bar>\<rfloor> (- 1022);
             ulp = pow2 (e - 52);
             y = of_int (round_half_even (\<bar>x\<bar> / ulp)) * ulp
         in if pow2 1024 \<le> y then (if 0 < x then PosInf else NegInf)
            else Finite (if 0 < x then y else - y)))"

text \<open>
  The exponent \<open>\<lfloor>log 2 x\<rfloor>\<close> of a positive number is the length of the binary numeral
  of its integer part, less one, and for a number below one the negated length of the
  numeral that precedes \<open>\<lceil>1 / x\<rceil>\<close>; \<open>to_double\<close> is computed with it.
\<close>

definition ilog2 :: "real \<Rightarrow> int" where
  "ilog2 x = (if 1 \<le> x then bitlen \<lfloor>x\<rfloor> - 1 else - bitlen (\<lceil>1 / x\<rceil> - 1))"

text \<open>
  The values that can reach the client: what \<^verbatim>\<open>JSON.parse\<close> builds, and
  \<^verbatim>\<open>undefined\<close>. An object is the list of its own properties, first entry first.
\<close>

datatype jsval =
    JUndefined
  | JNull
  | JBool bool
  | JNum jsnum
  | JStr string
  | JArr "jsval list"
  | JObj "(string \<times> jsval) list"

fun truthy :: "jsval \<Rightarrow> bool" where
  "truthy JUndefined = False"
| "truthy JNull = False"
| "truthy (JBool b) = b"
| "truthy (JNum n) = (n \<noteq> Finite 0 \<and> n \<noteq> NaN)"
| "truthy (JStr s) = (s \<noteq> [])"
| "truthy (JArr xs) = True"
| "truthy (JObj kvs) = True"

text \<open>\<^verbatim>\<open>a || b\<close>\<close>

definition js_or :: "jsval \<Rightarrow> jsval \<Rightarrow> jsval" where
  "js_or a b = (if truthy a then a else b)"

fun js_typeof :: "jsval \<Rightarrow> string" where
  "js_typeof JUndefined = ''undefined''"
| "js_typeof JNull = ''object''"
| "js_typeof (JBool b) = ''boolean''"
| "js_typeof (JNum n) = ''number''"
| "js_typeof (JStr s) = ''string''"
| "js_typeof (JArr xs) = ''object''"
| "js_typeof (JObj kvs) = ''object''"

text \<open>
  \<^verbatim>\<open>data?.key\<close> for a key that no prototype defines (the client reads \<^verbatim>\<open>message\<close>
  and \<^verbatim>\<open>error\<close>): an own property of an object, \<^verbatim>\<open>undefined\<close> on everything else.
\<close>

fun get_prop :: "jsval \<Rightarrow> string \<Rightarrow> jsval" where
  "get_prop (JObj kvs) k = (case map_of kvs k of Some v \<Rightarrow> v | None \<Rightarrow> JUndefined)"
| "get_prop v k = JUndefined"

text \<open>\<^verbatim>\<open>a * b\<close> on numbers.\<close>

fun js_times :: "jsnum \<Rightarrow> jsnum \<Rightarrow> jsnum" where
  "js_times NaN y = NaN"
| "js_times x NaN = NaN"
| "js_times (Finite a) (Finite b) = to_double (a * b)"
| "js_times (Finite a) PosInf = (if a = 0 then NaN else if 0 < a then PosInf else NegInf)"
| "js_times (Finite a) NegInf = (if a = 0 then NaN else if 0 < a then NegInf else PosInf)"
| "js_times PosInf (Finite b) = (if b = 0 then NaN else if 0 < b then PosInf else NegInf)"
| "js_times NegInf (Finite b) = (if b = 0 then NaN else if 0 < b then NegInf else PosInf)"
| "js_times PosInf PosInf = PosInf"
| "js_times PosInf NegInf = NegInf"
| "js_times NegInf PosInf = NegInf"
| "js_times NegInf NegInf = PosInf"

subsection \<open>\<^verbatim>\<open>Number(string)\<close>\<close>

text \<open>
  The conversion ECMAScript calls StringToNumber, on strings of bytes (a header value is
  one): white space is trimmed, the empty string is \<open>0\<close>, an unsigned literal with
  prefix \<^verbatim>\<open>0x\<close>, \<^verbatim>\<open>0o\<close> or \<^verbatim>\<open>0b\<close> is read in its base, a decimal literal may
  carry a sign, a fraction and an exponent, \<^verbatim>\<open>Infinity\<close> may carry a sign, and every
  other string is \<^verbatim>\<open>NaN\<close>. The value of a literal is computed exactly and rounded once.
\<close>

definition is_ws :: "char \<Rightarrow> bool" where
  "is_ws c \<longleftrightarrow> (of_char c :: nat) \<in> {9, 10, 11, 12, 13, 32, 160}"

definition trim :: "string \<Rightarrow> string" where
  "trim s = rev (dropWhile is_ws (rev (dropWhile is_ws s)))"

definition digit_of :: "char \<Rightarrow> nat option" where
  "digit_of c =
     (let n = of_char c :: nat in
      if 48 \<le> n \<and> n \<le> 57 then Some (n - 48)
      else if 97 \<le> n \<and> n \<le> 102 then Some (n - 87)
      else if 65 \<le> n \<and> n \<le> 70 then Some (n - 55)
      else None)"

definition is_digit :: "nat \<Rightarrow> char \<Rightarrow> bool" where
  "is_digit base c = (case digit_of c of Some d \<Rightarrow> d < base | None \<Rightarrow> False)"

definition digits_val :: "nat \<Rightarrow> string \<Rightarrow> nat" where
  "digits_val base ds =
     foldl (\<lambda>acc c. acc * base + (case digit_of c of Some d \<Rightarrow> d | None \<Rightarrow> 0)) 0 ds"

definition radix_literal :: "nat \<Rightarrow> string \<Rightarrow> jsnum" where
  "radix_literal base ds =
     (if ds \<noteq> [] \<and> list_all (is_digit base) ds then to_double (of_nat (digits_val base ds))
      else NaN)"

definition exponent_part :: "string \<Rightarrow> int option" where
  "exponent_part s =
     (case s of
        [] \<Rightarrow> Some 0
      | c # cs \<Rightarrow>
          if c = CHR ''e'' \<or> c = CHR ''E'' then
            (let neg = (cs \<noteq> [] \<and> hd cs = CHR ''-'');
                 ds = (if cs \<noteq> [] \<and> (hd cs = CHR ''+'' \<or> hd cs = CHR ''-'') then tl cs else cs)
             in if ds \<noteq> [] \<and> list_all (is_digit 10) ds
                then Some (if neg then - int (digits_val 10 ds) else int (digits_val 10 ds))
                else None)
          else None)"

definition pow10 :: "int \<Rightarrow> real" where
  "pow10 e = (if 0 \<le> e then 10 ^ nat e else 1 / 10 ^ nat (- e))"

definition decimal_literal :: "string \<Rightarrow> real option" where
  "decimal_literal s =
     (let ip = takeWhile (is_digit 10) s;
          r1 = dropWhile (is_digit 10) s;
          dot = (r1 \<noteq> [] \<and> hd r1 = CHR ''.'');
          fp = (if dot then takeWhile (is_digit 10) (tl r1) else []);
          r2 = (if dot then dropWhile (is_digit 10) (tl r1) else r1)
      in if ip = [] \<and> fp = [] then None
         else (case exponent_part r2 of
                 None \<Rightarrow> None
               | Some e \<Rightarrow> Some (of_nat (digits_val 10 (ip @ fp)) * pow10 (e - int (length fp)))))"

definition str_decimal :: "string \<Rightarrow> jsnum" where
  "str_decimal s =
     (let neg = (s \<noteq> [] \<and> hd s = CHR ''-'');
          body = (if s \<noteq> [] \<and> (hd s = CHR ''+'' \<or> hd s = CHR ''-'') then tl s else s)
      in if body = ''Infinity'' then (if neg then NegInf else PosInf)
         else (case decimal_literal body of
                 None \<Rightarrow> NaN
               | Some v \<Rightarrow> to_double (if neg then - v else v)))"

definition StringToNumber :: "string \<Rightarrow> jsnum" where
  "StringToNumber s =
     (let t = trim s in
      if t = [] then Finite 0
      else if take 2 t = ''0x'' \<or> take 2 t = ''0X'' then radix_literal 16 (drop 2 t)
      else if take 2 t = ''0o'' \<or> take 2 t = ''0O'' then radix_literal 8 (drop 2 t)
      else if take 2 t = ''0b'' \<or> take 2 t = ''0B'' then radix_literal 2 (drop 2 t)
      else str_decimal t)"

subsection \<open>Conversion to a string\<close>

text \<open>
  What a template literal and the \<^verbatim>\<open>Error\<close> constructor do to a value. The digits of
  a number are the runtime's, so the function that prints a number is a parameter. An
  array joins its elements with commas, \<^verbatim>\<open>null\<close> and \<^verbatim>\<open>undefined\<close> printing as
  nothing. An object built by \<^verbatim>\<open>JSON.parse\<close> prints through
  \<^verbatim>\<open>Object.prototype.toString\<close>, unless a property of its own named
  \<^verbatim>\<open>toString\<close> hides that method: a parsed property is never a function, and the
  conversion throws a \<^verbatim>\<open>TypeError\<close>, which is the result \<open>None\<close>.
\<close>

fun join_strings :: "string list \<Rightarrow> string" where
  "join_strings [] = []"
| "join_strings [x] = x"
| "join_strings (x # y # ys) = x @ '','' @ join_strings (y # ys)"

fun all_some :: "'a option list \<Rightarrow> 'a list option" where
  "all_some [] = Some []"
| "all_some (None # xs) = None"
| "all_some (Some x # xs) = (case all_some xs of None \<Rightarrow> None | Some ys \<Rightarrow> Some (x # ys))"

fun js_ToString :: "(jsnum \<Rightarrow> string) \<Rightarrow> jsval \<Rightarrow> string option" where
  "js_ToString pr JUndefined = Some ''undefined''"
| "js_ToString pr JNull = Some ''null''"
| "js_ToString pr (JBool b) = Some (if b then ''true'' else ''false'')"
| "js_ToString pr (JNum n) = Some (pr n)"
| "js_ToString pr (JStr s) = Some s"
| "js_ToString pr (JArr xs) =
     map_option join_strings
       (all_some (map (\<lambda>x. if x = JNull \<or> x = JUndefined then Some [] else js_ToString pr x) xs))"
| "js_ToString pr (JObj kvs) =
     (if map_of kvs ''toString'' = None then Some ''[object Object]'' else None)"

section \<open>Errors\<close>

text \<open>
  The four error classes. An error object is the record of its fields; \<open>retryAfter\<close>
  is \<^verbatim>\<open>undefined\<close> on the classes that do not set it. A parameter with a default
  takes the default when the argument is \<^verbatim>\<open>undefined\<close>. The constructors receive
  the message as a string: \<^verbatim>\<open>Error\<close> converts it, and the callers below do.
\<close>

record api_error =
  name :: string
  message :: string
  status :: int
  details :: jsval
  retryAfter :: jsval

definition OxfordAPIError_new :: "string \<Rightarrow> int \<Rightarrow> jsval \<Rightarrow> api_error" where
  "OxfordAPIError_new msg st det =
     \<lparr>name = ''OxfordAPIError'', message = msg, status = st,
      details = (if det = JUndefined then JNull else det), retryAfter = JUndefined\<rparr>"

definition RateLimitError_new :: "string \<Rightarrow> jsval \<Rightarrow> api_error" where
  "RateLimitError_new msg ra =
     (OxfordAPIError_new msg 429 JUndefined)
       \<lparr>name := ''RateLimitError'', retryAfter := (if ra = JUndefined then JNull else ra)\<rparr>"

definition AuthError_new :: api_error where
  "AuthError_new =
     (OxfordAPIError_new ''Invalid API key or unauthorized access'' 403 JUndefined)
       \<lparr>name := ''AuthError''\<rparr>"

text \<open>
  \<^verbatim>\<open>ServerUnavailableError\<close> applies \<^verbatim>\<open>message || "Server data temporarily unavailable"\<close>
  before the conversion; \<open>None\<close> when the conversion throws.
\<close>

definition ServerUnavailableError_new :: "(jsnum \<Rightarrow> string) \<Rightarrow> jsval \<Rightarrow> api_error option" where
  "ServerUnavailableError_new pr msg =
     map_option
       (\<lambda>s. (OxfordAPIError_new s 503 JUndefined)\<lparr>name := ''ServerUnavailableError''\<rparr>)
       (js_ToString pr (js_or msg (JStr ''Server data temporarily unavailable'')))"

text \<open>
  What a call can throw: one of the client's errors, the \<^verbatim>\<open>TypeError\<close> of
  \<^verbatim>\<open>executeCommand\<close> or of a failed conversion (with V8's message), or the plain
  \<^verbatim>\<open>Error\<close> of the constructor.
\<close>

datatype thrown = ApiError api_error | TypeError string | PlainError string

definition conversion_error :: thrown where
  "conversion_error = TypeError ''Cannot convert object to primitive value''"

section \<open>The client\<close>

text \<open>
  The bucket of a client. The token bucket above computes with real numbers, which
  follows the source as long as the rate is a finite number other than zero. A bucket
  made with any other rate (zero, infinite or \<^verbatim>\<open>NaN\<close>) has waits or token counts that
  are not finite numbers: the client has such a bucket, and the model does not follow
  what it does with its callers.
\<close>

datatype gate = Bucket TokenBucket | Degenerate_bucket

text \<open>
  The fields of \<^verbatim>\<open>OxfordAPI\<close>; \<open>bucket\<close> is \<^verbatim>\<open>_bucket\<close>, \<open>None\<close> for
  \<^verbatim>\<open>null\<close>. The fields \<^verbatim>\<open>servers\<close>, \<^verbatim>\<open>logs\<close> and \<^verbatim>\<open>commands\<close> point back to
  the client and are the functions \<open>servers\<close>, \<open>logs\<close> and \<open>commands\<close> below.
\<close>

record OxfordAPI =
  serverKey :: string
  baseUrl :: string
  maxRetries :: int
  timeout :: real
  bucket :: "gate option"

text \<open>
  The option \<^verbatim>\<open>rateLimit\<close>, of type \<^verbatim>\<open>"auto" | "none" | number\<close>; \<open>Seconds n\<close> is an
  option whose \<^verbatim>\<open>Number(rateLimit)\<close> is \<open>n\<close>. The rate
  \<^verbatim>\<open>1 / (Number(rateLimit) * 1000)\<close> that the constructor computes from it is rounded
  twice, after the product and after the quotient. It is \<open>None\<close> when it is not a
  finite number other than zero: a product of zero gives an infinite quotient, an
  infinite product gives zero, and \<^verbatim>\<open>NaN\<close> stays. The rate \<^verbatim>\<open>29 / 1000\<close> of the
  automatic mode is the quotient itself, where the source has the double next to it.
\<close>

datatype rate_limit = Auto | NoLimit | Seconds jsnum

definition seconds_rate :: "jsnum \<Rightarrow> real option" where
  "seconds_rate sec =
     (case js_times sec (Finite 1000) of
        Finite t \<Rightarrow>
          if t = 0 then None
          else (case to_double (1 / t) of
                  Finite r \<Rightarrow> if r = 0 then None else Some r
                | _ \<Rightarrow> None)
      | _ \<Rightarrow> None)"

text \<open>
  The constructor. An option that the caller leaves out is \<open>None\<close> and takes its
  default.
\<close>

definition OxfordAPI_new ::
  "(nat \<Rightarrow> real) \<Rightarrow> string option \<Rightarrow> rate_limit option \<Rightarrow> int option \<Rightarrow> real option
     \<Rightarrow> thrown + OxfordAPI" where
  "OxfordAPI_new clock key rateLimit retries tmo =
     (case key of
        None \<Rightarrow> Inl (PlainError ''[oxfd.js] serverKey is required'')
      | Some k \<Rightarrow>
          if k = [] then Inl (PlainError ''[oxfd.js] serverKey is required'')
          else Inr
            \<lparr>serverKey = k,
             baseUrl = ''https://api.oxfd.re/v1'',
             maxRetries = (case retries of None \<Rightarrow> 3 | Some n \<Rightarrow> n),
             timeout = (case tmo of None \<Rightarrow> 10000 | Some t \<Rightarrow> t),
             bucket =
               (case (case rateLimit of None \<Rightarrow> Auto | Some m \<Rightarrow> m) of
                  NoLimit \<Rightarrow> None
                | Auto \<Rightarrow> Some (Bucket (TokenBucket_new clock 10 (29 / 1000)))
                | Seconds sec \<Rightarrow>
                    Some (case seconds_rate sec of
                            Some r \<Rightarrow> Bucket (TokenBucket_new clock 1 r)
                          | None \<Rightarrow> Degenerate_bucket))\<rparr>)"

subsection \<open>The transport\<close>

text \<open>
  What \<^verbatim>\<open>fetch\<close> does with one call is the environment's choice: it answers, it
  rejects with an error of some name and message, or it is still pending when the timer
  of the attempt fires. A response is there when its status and headers have arrived; the
  body is read with \<^verbatim>\<open>res.text()\<close> afterwards, and \<open>res_body_ms\<close> is the time, in
  milliseconds from the call of \<^verbatim>\<open>fetch\<close>, at which the text has arrived.
\<close>

record response =
  res_status :: int
  res_statusText :: string
  res_headers :: "string \<Rightarrow> string option"
  res_text :: string
  res_body_ms :: real

definition res_ok :: "response \<Rightarrow> bool" where
  "res_ok r \<longleftrightarrow> 200 \<le> res_status r \<and> res_status r \<le> 299"

datatype fetch_outcome = Pending_at_deadline | Rejects string string | Responds response

text \<open>
  What the runtime brings: \<^verbatim>\<open>JSON.parse\<close> (\<open>None\<close> when it throws) and the printing
  of numbers.
\<close>

record runtime =
  JSON_parse :: "string \<Rightarrow> jsval option"
  Number_toString :: "jsnum \<Rightarrow> string"

text \<open>
  The effects of a call, in order: a token taken from the bucket, the timer of the
  attempt set and cleared, the request sent (method, URL, the \<^verbatim>\<open>server-key\<close> header
  and the value whose JSON text is the body), the request aborted, a wait before a retry.
\<close>

datatype effect =
    TakeToken
  | SetTimeout real
  | Fetch string string string "jsval option"
  | Abort
  | ClearTimeout
  | Sleep jsnum

text \<open>
  An attempt lasts beyond the deadline of the client when its fetch is still pending as
  the timer fires, or when the body of its response arrives later than that.
\<close>

definition outlasts_deadline :: "OxfordAPI \<Rightarrow> fetch_outcome \<Rightarrow> bool" where
  "outlasts_deadline c out =
     (case out of
        Pending_at_deadline \<Rightarrow> True
      | Rejects ename emsg \<Rightarrow> False
      | Responds res \<Rightarrow> timeout c < res_body_ms res)"

text \<open>
  When the timer fires first, its callback aborts the request and \<^verbatim>\<open>fetch\<close> rejects
  with the runtime's \<^verbatim>\<open>AbortError\<close>.
\<close>

definition aborted :: "fetch_outcome \<Rightarrow> bool" where
  "aborted out = (case out of Pending_at_deadline \<Rightarrow> True | _ \<Rightarrow> False)"

definition await_fetch :: "fetch_outcome \<Rightarrow> (string \<times> string) + response" where
  "await_fetch out =
     (case out of
        Pending_at_deadline \<Rightarrow> Inl (''AbortError'', ''This operation was aborted'')
      | Rejects ename emsg \<Rightarrow> Inl (ename, emsg)
      | Responds res \<Rightarrow> Inr res)"

text \<open>
  The first half of \<^verbatim>\<open>_request\<close>, up to the end of the \<^verbatim>\<open>try\<close> statement. Every
  attempt opens the same way: a token from the bucket if there is a bucket, the timer,
  the call of \<^verbatim>\<open>fetch\<close>; a body of \<^verbatim>\<open>null\<close>, the default, is not sent. The
  \<^verbatim>\<open>catch\<close> and the \<^verbatim>\<open>finally\<close> block each clear the timer.
\<close>

definition prelude :: "OxfordAPI \<Rightarrow> string \<Rightarrow> string \<Rightarrow> jsval \<Rightarrow> effect list" where
  "prelude c method path body =
     (if bucket c \<noteq> None then [TakeToken] else []) @
     [SetTimeout (timeout c),
      Fetch method (baseUrl c @ path) (serverKey c)
        (if body = JUndefined \<or> body = JNull then None else Some body)]"

definition send ::
  "OxfordAPI \<Rightarrow> fetch_outcome \<Rightarrow> string \<Rightarrow> string \<Rightarrow> jsval \<Rightarrow> effect list \<times> (thrown + response)" where
  "send c out method path body =
     (case await_fetch out of
        Inr res \<Rightarrow> (prelude c method path body @ [ClearTimeout], Inr res)
      | Inl (ename, emsg) \<Rightarrow>
          (prelude c method path body @ (if aborted out then [Abort] else []) @
             [ClearTimeout, ClearTimeout],
           Inl (ApiError
             (if ename = ''AbortError''
              then OxfordAPIError_new ''Request timed out'' 408 JUndefined
              else OxfordAPIError_new (''Network error: '' @ emsg) 0 JUndefined))))"

text \<open>
  The delay of a retry, \<^verbatim>\<open>Number(res.headers.get("Retry-After") || 1) * 1000\<close>. A header
  that is absent reads as \<^verbatim>\<open>null\<close>; \<^verbatim>\<open>null\<close> and the empty string are falsy and
  give way to the number \<open>1\<close>, which \<^verbatim>\<open>Number\<close> leaves as it is; any other header
  value is a string for \<^verbatim>\<open>Number\<close> to convert.
\<close>

definition header_value :: "string option \<Rightarrow> jsval" where
  "header_value h = (case h of None \<Rightarrow> JNull | Some s \<Rightarrow> JStr s)"

definition retry_wait :: "string option \<Rightarrow> jsnum" where
  "retry_wait h =
     js_times
       (case h of
          None \<Rightarrow> Finite 1
        | Some s \<Rightarrow> if s = [] then Finite 1 else StringToNumber s)
       (Finite 1000)"

text \<open>
  The second half of \<^verbatim>\<open>_request\<close>, for a status other than 429: the body is parsed,
  and a response that is not \<^verbatim>\<open>ok\<close> becomes the error of its status.
\<close>

definition parse_body :: "runtime \<Rightarrow> string \<Rightarrow> jsval" where
  "parse_body rt txt =
     (if txt \<noteq> [] then
        (case JSON_parse rt txt of Some v \<Rightarrow> v | None \<Rightarrow> JObj [(''message'', JStr txt)])
      else JNull)"

definition with_string :: "runtime \<Rightarrow> jsval \<Rightarrow> (string \<Rightarrow> api_error) \<Rightarrow> thrown" where
  "with_string rt v mk =
     (case js_ToString (Number_toString rt) v of
        None \<Rightarrow> conversion_error
      | Some s \<Rightarrow> ApiError (mk s))"

definition classify :: "runtime \<Rightarrow> string \<Rightarrow> response \<Rightarrow> jsval \<Rightarrow> thrown" where
  "classify rt path res data =
     (let msg = js_or (get_prop data ''message'') (JStr (res_statusText res));
          detail = js_or (get_prop data ''error'') JNull
      in if res_status res = 400 then
           with_string rt msg (\<lambda>s. OxfordAPIError_new (''Bad request: '' @ s) 400 detail)
         else if res_status res = 403 then ApiError AuthError_new
         else if res_status res = 404 then
           ApiError (OxfordAPIError_new (''Not found: '' @ path) 404 detail)
         else if res_status res = 500 then
           with_string rt msg (\<lambda>s. OxfordAPIError_new (''Internal server error: '' @ s) 500 detail)
         else if res_status res = 503 then
           (case ServerUnavailableError_new (Number_toString rt) msg of
              None \<Rightarrow> conversion_error
            | Some e \<Rightarrow> ApiError e)
         else with_string rt msg (\<lambda>s. OxfordAPIError_new s (res_status res) detail))"

definition settle :: "runtime \<Rightarrow> string \<Rightarrow> response \<Rightarrow> thrown + jsval" where
  "settle rt path res =
     (let data = parse_body rt (res_text res)
      in if \<not> res_ok res then Inl (classify rt path res data) else Inr data)"

text \<open>
  \<^verbatim>\<open>_request\<close>. The environment \<open>net\<close> gives the outcome of the fetch of each attempt.
  The result is the effects in order and what the promise settles with.
\<close>

function request ::
  "OxfordAPI \<Rightarrow> runtime \<Rightarrow> (nat \<Rightarrow> fetch_outcome) \<Rightarrow> string \<Rightarrow> string \<Rightarrow> jsval \<Rightarrow> nat
     \<Rightarrow> effect list \<times> (thrown + jsval)" where
  "request c rt net method path body attempt =
     (case send c (net attempt) method path body of
        (tr, Inl err) \<Rightarrow> (tr, Inl err)
      | (tr, Inr res) \<Rightarrow>
          if res_status res = 429 then
            if int attempt < maxRetries c then
              (let again = request c rt net method path body (attempt + 1)
               in (tr @ [Sleep (retry_wait (res_headers res ''Retry-After''))] @ fst again,
                   snd again))
            else
              (tr, Inl (ApiError (RateLimitError_new ''Rate limit exceeded''
                                   (header_value (res_headers res ''Retry-After'')))))
          else (tr, settle rt path res))"
  by pat_completeness auto
termination
  by (relation "measure (\<lambda>(c, rt, net, method, path, body, attempt). nat (maxRetries c - int attempt))")
     auto

text \<open>
  A method of the client, given the runtime and the outcomes of the fetches, yields its
  effects and its result. \<^verbatim>\<open>_get\<close> and \<^verbatim>\<open>_post\<close> leave out the attempt, which
  defaults to \<open>0\<close>.
\<close>

type_synonym call = "runtime \<Rightarrow> (nat \<Rightarrow> fetch_outcome) \<Rightarrow> effect list \<times> (thrown + jsval)"

definition get :: "OxfordAPI \<Rightarrow> runtime \<Rightarrow> (nat \<Rightarrow> fetch_outcome) \<Rightarrow> string
    \<Rightarrow> effect list \<times> (thrown + jsval)" where
  "get c rt net path = request c rt net ''GET'' path JUndefined 0"

definition post :: "OxfordAPI \<Rightarrow> runtime \<Rightarrow> (nat \<Rightarrow> fetch_outcome) \<Rightarrow> string \<Rightarrow> jsval
    \<Rightarrow> effect list \<times> (thrown + jsval)" where
  "post c rt net path body = request c rt net ''POST'' path body 0"

definition getServer :: "OxfordAPI \<Rightarrow> call" where
  "getServer c rt net = get c rt net ''/server''"
definition getPlayers :: "OxfordAPI \<Rightarrow> call" where
  "getPlayers c rt net = get c rt net ''/server/players''"
definition getQueue :: "OxfordAPI \<Rightarrow> call" where
  "getQueue c rt net = get c rt net ''/server/queue''"
definition getBans :: "OxfordAPI \<Rightarrow> call" where
  "getBans c rt net = get c rt net ''/server/bans''"
definition getKillLogs :: "OxfordAPI \<Rightarrow> call" where
  "getKillLogs c rt net = get c rt net ''/server/killlogs''"
definition getCommandLogs :: "OxfordAPI \<Rightarrow> call" where
  "getCommandLogs c rt net = get c rt net ''/server/commandlogs''"
definition getModCalls :: "OxfordAPI \<Rightarrow> call" where
  "getModCalls c rt net = get c rt net ''/server/modcalls''"
definition getVehicles :: "OxfordAPI \<Rightarrow> call" where
  "getVehicles c rt net = get c rt net ''/server/vehicles''"
definition getRobberies :: "OxfordAPI \<Rightarrow> call" where
  "getRobberies c rt net = get c rt net ''/server/robberies''"
definition getRadioCalls :: "OxfordAPI \<Rightarrow> call" where
  "getRadioCalls c rt net = get c rt net ''/server/radiocalls''"
definition getJoinLogs :: "OxfordAPI \<Rightarrow> call" where
  "getJoinLogs c rt net = get c rt net ''/server/joinlogs''"

text \<open>
  \<^verbatim>\<open>executeCommand\<close> throws before it calls \<^verbatim>\<open>_post\<close>; the body it posts is the
  object \<^verbatim>\<open>{ command }\<close>.
\<close>

definition executeCommand :: "OxfordAPI \<Rightarrow> runtime \<Rightarrow> (nat \<Rightarrow> fetch_outcome) \<Rightarrow> jsval
    \<Rightarrow> effect list \<times> (thrown + jsval)" where
  "executeCommand c rt net command =
     (if \<not> truthy command \<or> js_typeof command \<noteq> ''string''
      then ([], Inl (TypeError ''[oxfd.js] command must be a non-empty string''))
      else post c rt net ''/server/command'' (JObj [(''command'', command)]))"

subsection \<open>Grouped managers\<close>

text \<open>
  A manager is an object with the one field \<^verbatim>\<open>_api\<close>. The constructor of the client
  stores \<^verbatim>\<open>new Servers(this)\<close>, \<^verbatim>\<open>new Logs(this)\<close> and \<^verbatim>\<open>new Commands(this)\<close> in
  its fields \<^verbatim>\<open>servers\<close>, \<^verbatim>\<open>logs\<close> and \<^verbatim>\<open>commands\<close>.
\<close>

datatype Servers = Servers OxfordAPI
datatype Logs = Logs OxfordAPI
datatype Commands = Commands OxfordAPI

definition servers :: "OxfordAPI \<Rightarrow> Servers" where "servers c = Servers c"
definition logs :: "OxfordAPI \<Rightarrow> Logs" where "logs c = Logs c"
definition commands :: "OxfordAPI \<Rightarrow> Commands" where "commands c = Commands c"

fun Servers_getServer :: "Servers \<Rightarrow> call" where
  "Servers_getServer (Servers api) rt net = getServer api rt net"
fun Servers_getPlayers :: "Servers \<Rightarrow> call" where
  "Servers_getPlayers (Servers api) rt net = getPlayers api rt net"
fun Servers_getQueue :: "Servers \<Rightarrow> call" where
  "Servers_getQueue (Servers api) rt net = getQueue api rt net"
fun Servers_getBans :: "Servers \<Rightarrow> call" where
  "Servers_getBans (Servers api) rt net = getBans api rt net"
fun Servers_getVehicles :: "Servers \<Rightarrow> call" where
  "Servers_getVehicles (Servers api) rt net = getVehicles api rt net"
fun Servers_getRobberies :: "Servers \<Rightarrow> call" where
  "Servers_getRobberies (Servers api) rt net = getRobberies api rt net"

fun Logs_getKillLogs :: "Logs \<Rightarrow> call" where
  "Logs_getKillLogs (Logs api) rt net = getKillLogs api rt net"
fun Logs_getCommandLogs :: "Logs \<Rightarrow> call" where
  "Logs_getCommandLogs (Logs api) rt net = getCommandLogs api rt net"
fun Logs_getModCalls :: "Logs \<Rightarrow> call" where
  "Logs_getModCalls (Logs api) rt net = getModCalls api rt net"
fun Logs_getRadioCalls :: "Logs \<Rightarrow> call" where
  "Logs_getRadioCalls (Logs api) rt net = getRadioCalls api rt net"
fun Logs_getJoinLogs :: "Logs \<Rightarrow> call" where
  "Logs_getJoinLogs (Logs api) rt net = getJoinLogs api rt net"

fun Commands_execute :: "Commands \<Rightarrow> runtime \<Rightarrow> (nat \<Rightarrow> fetch_outcome) \<Rightarrow> jsval
    \<Rightarrow> effect list \<times> (thrown + jsval)" where
  "Commands_execute (Commands api) rt net command = executeCommand api rt net command"

subsection \<open>Examples\<close>

text \<open>
  A client without a bucket and with one retry, a runtime, and responses, for the
  concrete cases below. The runtime's parser agrees with \<^verbatim>\<open>JSON.parse\<close> on the
  bodies the examples use: three objects with a message and an array parse, the other
  texts used are not JSON. It prints the numbers \<open>1\<close> and \<open>42\<close>, the only ones that an
  example prints. The body of an example response arrives at once.
\<close>

definition demo_client :: OxfordAPI where
  "demo_client =
     \<lparr>serverKey = ''key'', baseUrl = ''https://api.oxfd.re/v1'', maxRetries = 1,
      timeout = 10000, bucket = None\<rparr>"

definition demo_runtime :: runtime where
  \<open>demo_runtime =
     \<lparr>JSON_parse =
        (\<lambda>s. if s = ''{"message":"down"}'' then Some (JObj [(''message'', JStr ''down'')])
             else if s = ''[1]'' then Some (JArr [JNum (Finite 1)])
             else if s = ''{"message":42}'' then Some (JObj [(''message'', JNum (Finite 42))])
             else if s = ''{"message":{"toString":1}}''
               then Some (JObj [(''message'', JObj [(''toString'', JNum (Finite 1))])])
             else None),
      Number_toString =
        (\<lambda>n. if n = Finite 1 then ''1'' else if n = Finite 42 then ''42'' else ''NaN'')\<rparr>\<close>

definition demo_response :: "int \<Rightarrow> string \<Rightarrow> string option \<Rightarrow> string \<Rightarrow> response" where
  "demo_response st reason retry_after txt =
     \<lparr>res_status = st, res_statusText = reason,
      res_headers = (\<lambda>h. if h = ''Retry-After'' then retry_after else None),
      res_text = txt, res_body_ms = 0\<rparr>"

section \<open>Rounding to a double\<close>

lemma round_half_even_int [simp]: "round_half_even (of_int k) = k"
  by (simp add: round_half_even_def)


lemma pow2_nonzero [simp]: "pow2 e \<noteq> 0"
  by (simp add: pow2_def)

lemma floor_log2_bounds:
  assumes "1 \<le> n" and "real n \<le> 2 ^ 53"
  shows "0 \<le> \<lfloor>log 2 (real n)\<rfloor>" and "\<lfloor>log 2 (real n)\<rfloor> \<le> 53"
proof -
  have "0 \<le> log 2 (real n)" using assms(1) by simp
  then show "0 \<le> \<lfloor>log 2 (real n)\<rfloor>" by simp
  have p: "log 2 ((2::real) ^ 53) = real (53::nat)" by (rule log_pow_cancel) simp_all
  have "0 < real n" using assms(1) by simp
  then have "log 2 (real n) \<le> log 2 (2 ^ 53)"
    using assms(2) by simp
  then have "log 2 (real n) \<le> 53" using p by simp
  then show "\<lfloor>log 2 (real n)\<rfloor> \<le> 53" by (simp add: floor_le_iff)
qed

lemma floor_log2_top:
  assumes "1 \<le> n" and "real n \<le> 2 ^ 53" and "\<lfloor>log 2 (real n)\<rfloor> = 53"
  shows "real n = 2 ^ 53"
proof -
  have "53 \<le> log 2 (real n)" using assms(3) by linarith
  then have "2 powr 53 \<le> real n" using assms(1) by (simp add: le_log_iff)
  then have "2 ^ 53 \<le> real n" by (simp add: powr_numeral)
  with assms(2) show ?thesis by simp
qed

lemma to_double_nat:
  assumes "real n \<le> 2 ^ 53"
  shows "to_double (real n) = Finite (real n)"
proof (cases "n = 0")
  case True
  then show ?thesis by (simp add: to_double_def)
next
  case False
  then have n1: "1 \<le> n" by simp
  let ?e = "\<lfloor>log 2 (real n)\<rfloor>"
  have e0: "0 \<le> ?e" and e53: "?e \<le> 53" using floor_log2_bounds [OF n1 assms] by simp_all
  have m: "max ?e (- 1022) = ?e" using e0 by simp
  have "\<exists>k::int. real n / pow2 (?e - 52) = of_int k"
  proof (cases "?e = 53")
    case True
    then have "real n = 2 ^ 53" using floor_log2_top [OF n1 assms] by simp
    then have "real n / pow2 (?e - 52) = of_int (2 ^ 52)" using True by (simp add: pow2_def)
    then show ?thesis by blast
  next
    case False
    with e53 have le: "?e \<le> 52" by linarith
    then have "pow2 (?e - 52) = 1 / 2 ^ nat (52 - ?e)"
      by (cases "?e = 52") (simp_all add: pow2_def)
    then have "real n / pow2 (?e - 52) = of_int (int n * 2 ^ nat (52 - ?e))"
      by simp
    then show ?thesis by blast
  qed
  then obtain k :: int where k: "real n / pow2 (?e - 52) = of_int k" by blast
  have "of_int k * pow2 (?e - 52) = real n"
    using k [symmetric] by simp
  then have y: "of_int (round_half_even (real n / pow2 (?e - 52))) * pow2 (?e - 52) = real n"
    using k by simp
  have big: "\<not> pow2 1024 \<le> real n"
  proof -
    have "(2::real) ^ 53 < 2 ^ 1024" by (rule power_strict_increasing) simp_all
    with assms show ?thesis by (simp add: pow2_def)
  qed
  show ?thesis
    using False n1 big by (simp add: to_double_def m y Let_def)
qed


lemma pow2_powr: "pow2 k = 2 powr (of_int k)"
proof (cases "0 \<le> k")
  case True
  then have "2 powr (of_int k) = (2::real) powr (real (nat k))" by simp
  also have "\<dots> = 2 ^ nat k" by (rule powr_realpow) simp
  finally show ?thesis using True by (simp add: pow2_def)
next
  case False
  then have "2 powr (of_int k) = (2::real) powr (- real (nat (- k)))" by simp
  also have "\<dots> = 1 / 2 powr (real (nat (- k)))" by (simp add: powr_minus divide_inverse)
  also have "2 powr (real (nat (- k))) = (2::real) ^ nat (- k)" by (rule powr_realpow) simp
  finally show ?thesis using False by (simp add: pow2_def)
qed

lemma floor_log2_unique:
  assumes "0 < x" and "pow2 k \<le> x" and "x < pow2 (k + 1)"
  shows "\<lfloor>log 2 x\<rfloor> = k"
proof (rule floor_unique)
  show "of_int k \<le> log 2 x"
    using assms(1,2) by (simp add: le_log_iff pow2_powr)
  have "x < 2 powr (of_int k + 1)" using assms(3) by (simp add: pow2_powr)
  then show "log 2 x < of_int k + 1"
    using assms(1) by (simp add: log_less_iff)
qed

lemma ilog2_floor_log:
  assumes "0 < x"
  shows "ilog2 x = \<lfloor>log 2 x\<rfloor>"
proof (cases "1 \<le> x")
  case True
  let ?m = "\<lfloor>x\<rfloor>"
  have m: "0 < ?m" using True by simp
  have b1: "1 \<le> bitlen ?m" using m by (simp add: bitlen_alt_def)
  from bitlen_bounds [OF m]
  have lo: "2 ^ nat (bitlen ?m - 1) \<le> ?m" and hi: "?m < 2 ^ nat (bitlen ?m)" by simp_all
  have "pow2 (bitlen ?m - 1) = of_int (2 ^ nat (bitlen ?m - 1))"
    using b1 by (simp add: pow2_def)
  also have "\<dots> \<le> of_int ?m" using lo by (simp only: of_int_le_iff)
  also have "\<dots> \<le> x" by simp
  finally have l: "pow2 (bitlen ?m - 1) \<le> x" .
  have "?m + 1 \<le> 2 ^ nat (bitlen ?m)" using hi by simp
  then have "of_int (?m + 1) \<le> (of_int (2 ^ nat (bitlen ?m)) :: real)"
    by (simp only: of_int_le_iff)
  moreover have "x < of_int (?m + 1)" by simp
  ultimately have "x < of_int (2 ^ nat (bitlen ?m))" by linarith
  then have h: "x < pow2 (bitlen ?m - 1 + 1)" using b1 by (simp add: pow2_def)
  show ?thesis
    using floor_log2_unique [OF assms l h] True by (simp add: ilog2_def)
next
  case False
  let ?y = "1 / x"
  let ?m = "\<lceil>?y\<rceil>"
  have y1: "1 < ?y" using False assms by simp
  then have m2: "2 \<le> ?m" by (simp add: le_ceiling_iff)
  then have m1: "0 < ?m - 1" by simp
  let ?j = "bitlen (?m - 1)"
  have j1: "1 \<le> ?j" using m1 by (simp add: bitlen_alt_def)
  from bitlen_bounds [OF m1]
  have lo: "2 ^ nat (?j - 1) \<le> ?m - 1" and hi: "?m - 1 < 2 ^ nat ?j" by simp_all
  have up: "?y \<le> 2 ^ nat ?j"
  proof -
    have "?m \<le> 2 ^ nat ?j" using hi by simp
    then have a: "(of_int ?m :: real) \<le> of_int (2 ^ nat ?j)" by (simp only: of_int_le_iff)
    have b: "?y \<le> of_int ?m" by (rule le_of_int_ceiling)
    have c: "(of_int (2 ^ nat ?j) :: real) = 2 ^ nat ?j" by simp
    show ?thesis using a b unfolding c by (rule order_trans [rotated])
  qed
  have dn: "2 ^ nat (?j - 1) < ?y"
  proof -
    have a: "(of_int (2 ^ nat (?j - 1)) :: real) \<le> of_int (?m - 1)"
      using lo by (simp only: of_int_le_iff)
    have b: "of_int (?m - 1) < ?y" using ceiling_correct [of ?y] by simp
    have c: "(of_int (2 ^ nat (?j - 1)) :: real) = 2 ^ nat (?j - 1)" by simp
    show ?thesis using a b unfolding c by (rule le_less_trans)
  qed
  have l: "pow2 (- ?j) \<le> x"
  proof -
    have "1 \<le> 2 ^ nat ?j * x" using up assms by (simp add: field_simps)
    then have "1 / 2 ^ nat ?j \<le> x" by (simp add: field_simps)
    then show ?thesis using j1 by (simp add: pow2_def)
  qed
  have h: "x < pow2 (- ?j + 1)"
  proof -
    have "2 ^ nat (?j - 1) * x < 1" using dn assms by (simp add: field_simps)
    then have x: "x < 1 / 2 ^ nat (?j - 1)" by (simp add: field_simps)
    have "- ?j + 1 = - (?j - 1)" by simp
    moreover have "pow2 (- (?j - 1)) = 1 / 2 ^ nat (?j - 1)"
      using j1 by (cases "?j = 1") (simp_all add: pow2_def)
    ultimately show ?thesis using x by (simp only:)
  qed
  show ?thesis
    using floor_log2_unique [OF assms l h] False by (simp add: ilog2_def)
qed

lemma to_double_code [code]:
  "to_double x =
     (if x = 0 then Finite 0
      else
        (let e = max (ilog2 \<bar>x\<bar>) (- 1022);
             ulp = pow2 (e - 52);
             y = of_int (round_half_even (\<bar>x\<bar> / ulp)) * ulp
         in if pow2 1024 \<le> y then (if 0 < x then PosInf else NegInf)
            else Finite (if 0 < x then y else - y)))"
  by (simp add: to_double_def ilog2_floor_log)







section \<open>Properties of the token bucket\<close>

subsection \<open>One run of the drain loop\<close>

declare tick.simps [simp del]

lemma refill_fields [simp]:
  "capacity (refill clock b) = capacity b"
  "refillRate (refill clock b) = refillRate b"
  "queue (refill clock b) = queue b"
  "processing (refill clock b) = processing b"
  "timers (refill clock b) = timers b"
  "resolved (refill clock b) = resolved b"
  "reads (refill clock b) = Suc (reads b)"
  "lastRefill (refill clock b) = clock (reads b)"
  by (simp_all add: refill_def Let_def)

lemma refill_tokens:
  "tokens (refill clock b) = min (capacity b) (tokens b + (clock (reads b) - lastRefill b) * refillRate b)"
  by (simp add: refill_def Let_def)

lemma tick_Nil: "queue b = [] \<Longrightarrow> tick clock b = b\<lparr>processing := False\<rparr>"
  by (simp add: tick.simps [of clock b])

lemma tick_grant:
  "queue b = q # qs \<Longrightarrow> 1 \<le> tokens (refill clock b) \<Longrightarrow>
   tick clock b = tick clock ((refill clock b)\<lparr>tokens := tokens (refill clock b) - 1,
                                               queue := qs, resolved := resolved b @ [q]\<rparr>)"
  by (simp add: tick.simps [of clock b] Let_def)

lemma tick_wait:
  "queue b = q # qs \<Longrightarrow> \<not> 1 \<le> tokens (refill clock b) \<Longrightarrow>
   tick clock b = (refill clock b)\<lparr>timers := timers b @ [(1 - tokens (refill clock b)) / refillRate b]\<rparr>"
  by (simp add: tick.simps [of clock b] Let_def)

lemma tick_cases_induct [case_names empty wait grant]:
  assumes e: "\<And>b. queue b = [] \<Longrightarrow> P b"
    and w: "\<And>b q qs. queue b = q # qs \<Longrightarrow> \<not> 1 \<le> tokens (refill clock b) \<Longrightarrow> P b"
    and g: "\<And>b q qs. queue b = q # qs \<Longrightarrow> 1 \<le> tokens (refill clock b) \<Longrightarrow>
              P ((refill clock b)\<lparr>tokens := tokens (refill clock b) - 1,
                                  queue := qs, resolved := resolved b @ [q]\<rparr>) \<Longrightarrow> P b"
  shows "P b"
proof (induction "length (queue b)" arbitrary: b)
  case 0
  then show ?case by (simp add: e)
next
  case (Suc n)
  then obtain q qs where q: "queue b = q # qs" by (cases "queue b") auto
  show ?case
  proof (cases "1 \<le> tokens (refill clock b)")
    case True
    have "P ((refill clock b)\<lparr>tokens := tokens (refill clock b) - 1,
                                  queue := qs, resolved := resolved b @ [q]\<rparr>)"
      using Suc q by simp
    with q True show ?thesis by (rule g)
  next
    case False
    with q show ?thesis by (rule w)
  qed
qed

lemma tick_capacity [simp]: "capacity (tick clock b) = capacity b"
  by (induction b rule: tick_cases_induct [where clock = clock])
     (simp_all add: tick_Nil tick_grant tick_wait)

lemma tick_refillRate [simp]: "refillRate (tick clock b) = refillRate b"
  by (induction b rule: tick_cases_induct [where clock = clock])
     (simp_all add: tick_Nil tick_grant tick_wait)

lemma tick_fifo: "resolved (tick clock b) @ queue (tick clock b) = resolved b @ queue b"
  by (induction b rule: tick_cases_induct [where clock = clock])
     (simp_all add: tick_Nil tick_grant tick_wait)

lemma tick_drain:
  "processing b \<Longrightarrow> timers b = [] \<Longrightarrow>
   (processing (tick clock b) \<longleftrightarrow> timers (tick clock b) \<noteq> []) \<and>
   length (timers (tick clock b)) \<le> 1 \<and>
   (processing (tick clock b) \<longleftrightarrow> queue (tick clock b) \<noteq> [])"
  by (induction b rule: tick_cases_induct [where clock = clock])
     (auto simp add: tick_Nil tick_grant tick_wait)

lemma tick_upper: "tokens b \<le> capacity b \<Longrightarrow> tokens (tick clock b) \<le> capacity b"
  by (induction b rule: tick_cases_induct [where clock = clock])
     (simp_all add: tick_Nil tick_grant tick_wait refill_tokens)

lemma tick_clock:
  "1 \<le> reads b \<Longrightarrow> lastRefill b = clock (reads b - 1) \<Longrightarrow>
   1 \<le> reads (tick clock b) \<and> lastRefill (tick clock b) = clock (reads (tick clock b) - 1)"
  by (induction b rule: tick_cases_induct [where clock = clock])
     (simp_all add: tick_Nil tick_grant tick_wait)

lemma tick_lower:
  "mono clock \<Longrightarrow> 0 \<le> capacity b \<Longrightarrow> 0 \<le> refillRate b \<Longrightarrow>
   1 \<le> reads b \<Longrightarrow> lastRefill b = clock (reads b - 1) \<Longrightarrow> 0 \<le> tokens b \<Longrightarrow>
   0 \<le> tokens (tick clock b)"
proof (induction b rule: tick_cases_induct [where clock = clock])
  case (empty b)
  then show ?case by (simp add: tick_Nil)
next
  case (wait b q qs)
  have "clock (reads b - 1) \<le> clock (reads b)"
    using wait.prems(1) by (simp add: monoD)
  then have "0 \<le> (clock (reads b) - lastRefill b) * refillRate b"
    using wait.prems by simp
  then show ?case using wait by (simp add: tick_wait refill_tokens)
next
  case (grant b q qs)
  then show ?case by (simp add: tick_grant)
qed

lemma tick_conserve:
  "tokens b + real (length (resolved b)) \<le> capacity b + refillRate b * (lastRefill b - t0) \<Longrightarrow>
   tokens (tick clock b) + real (length (resolved (tick clock b)))
     \<le> capacity b + refillRate b * (lastRefill (tick clock b) - t0)"
proof (induction b rule: tick_cases_induct [where clock = clock])
  case (empty b)
  then show ?case by (simp add: tick_Nil)
next
  case (wait b q qs)
  have "tokens (refill clock b) \<le> tokens b + (clock (reads b) - lastRefill b) * refillRate b"
    by (simp add: refill_tokens)
  with wait.prems wait.hyps show ?case by (simp add: tick_wait algebra_simps)
next
  case (grant b q qs)
  have "tokens (refill clock b) \<le> tokens b + (clock (reads b) - lastRefill b) * refillRate b"
    by (simp add: refill_tokens)
  with grant.prems have "tokens (refill clock b) - 1 + real (length (resolved b @ [q]))
     \<le> capacity b + refillRate b * (clock (reads b) - t0)"
    by (simp add: algebra_simps)
  with grant.IH show ?case using grant.hyps by (simp add: tick_grant)
qed

subsection \<open>Events and runs\<close>

lemma step_drain: "drain_inv b \<Longrightarrow> drain_inv (step clock e b)"
proof (cases e)
  case (Acquire i)
  assume inv: "drain_inv b"
  show ?thesis
  proof (cases "processing b")
    case True
    with inv Acquire show ?thesis by (simp add: acquire_def process_def drain_inv_def)
  next
    case False
    with inv have "timers b = []" by (simp add: drain_inv_def)
    then have "drain_inv (tick clock (b\<lparr>queue := queue b @ [i], processing := True\<rparr>))"
      unfolding drain_inv_def by (intro tick_drain) simp_all
    with False Acquire show ?thesis by (simp add: acquire_def process_def)
  qed
next
  case TimerFires
  assume inv: "drain_inv b"
  show ?thesis
  proof (cases "timers b")
    case Nil
    with inv TimerFires show ?thesis by simp
  next
    case (Cons d ds)
    with inv have "ds = []" "processing b" by (simp_all add: drain_inv_def)
    then have "drain_inv (tick clock (b\<lparr>timers := ds\<rparr>))"
      unfolding drain_inv_def by (intro tick_drain) simp_all
    with Cons TimerFires show ?thesis by simp
  qed
qed

lemma step_capacity [simp]: "capacity (step clock e b) = capacity b"
  by (cases e) (simp_all add: acquire_def process_def split: list.splits)

lemma step_refillRate [simp]: "refillRate (step clock e b) = refillRate b"
  by (cases e) (simp_all add: acquire_def process_def split: list.splits)

lemma step_fifo:
  "resolved (step clock e b) @ queue (step clock e b) = resolved b @ queue b @ arrivals [e]"
  by (cases e) (simp_all add: acquire_def process_def tick_fifo split: list.splits)

lemma step_upper: "tokens b \<le> capacity b \<Longrightarrow> tokens (step clock e b) \<le> capacity b"
  using tick_upper [of "b\<lparr>queue := queue b @ [i], processing := True\<rparr>" clock for i]
        tick_upper [of "b\<lparr>timers := ds\<rparr>" clock for ds]
  by (cases e) (simp_all add: acquire_def process_def split: list.splits)

lemma step_clock: "clock_inv clock b \<Longrightarrow> clock_inv clock (step clock e b)"
  using tick_clock [of "b\<lparr>queue := queue b @ [i], processing := True\<rparr>" clock for i]
        tick_clock [of "b\<lparr>timers := ds\<rparr>" clock for ds]
  unfolding clock_inv_def
  by (cases e) (simp_all add: acquire_def process_def split: list.splits)

lemma step_lower:
  "mono clock \<Longrightarrow> 0 \<le> capacity b \<Longrightarrow> 0 \<le> refillRate b \<Longrightarrow> clock_inv clock b \<Longrightarrow>
   0 \<le> tokens b \<Longrightarrow> 0 \<le> tokens (step clock e b)"
  using tick_lower [of clock "b\<lparr>queue := queue b @ [i], processing := True\<rparr>" for i]
        tick_lower [of clock "b\<lparr>timers := ds\<rparr>" for ds]
  unfolding clock_inv_def
  by (cases e) (simp_all add: acquire_def process_def split: list.splits)

lemma step_conserve:
  "tokens b + real (length (resolved b)) \<le> capacity b + refillRate b * (lastRefill b - t0) \<Longrightarrow>
   tokens (step clock e b) + real (length (resolved (step clock e b)))
     \<le> capacity b + refillRate b * (lastRefill (step clock e b) - t0)"
  using tick_conserve [of "b\<lparr>queue := queue b @ [i], processing := True\<rparr>" t0 clock for i]
        tick_conserve [of "b\<lparr>timers := ds\<rparr>" t0 clock for ds]
  by (cases e) (simp_all add: acquire_def process_def split: list.splits)

lemma run_Nil [simp]: "run clock [] b = b"
  by (simp add: run_def)

lemma run_Cons [simp]: "run clock (e # evs) b = run clock evs (step clock e b)"
  by (simp add: run_def)

lemma run_capacity [simp]: "capacity (run clock evs b) = capacity b"
  by (induction evs arbitrary: b) simp_all

lemma run_refillRate [simp]: "refillRate (run clock evs b) = refillRate b"
  by (induction evs arbitrary: b) simp_all

lemma run_drain: "drain_inv b \<Longrightarrow> drain_inv (run clock evs b)"
  by (induction evs arbitrary: b) (simp_all add: step_drain)

lemma arrivals_Cons: "arrivals (e # evs) = arrivals [e] @ arrivals evs"
  by (cases e) simp_all

lemma run_fifo:
  "resolved (run clock evs b) @ queue (run clock evs b) = resolved b @ queue b @ arrivals evs"
proof (induction evs arbitrary: b)
  case Nil
  show ?case by simp
next
  case (Cons e evs)
  have "resolved (run clock (e # evs) b) @ queue (run clock (e # evs) b)
        = (resolved (step clock e b) @ queue (step clock e b)) @ arrivals evs"
    using Cons [of "step clock e b"] by simp
  also have "\<dots> = resolved b @ queue b @ arrivals [e] @ arrivals evs"
    by (simp add: step_fifo)
  finally show ?case using arrivals_Cons [of e evs] by simp
qed

lemma run_upper: "tokens b \<le> capacity b \<Longrightarrow> tokens (run clock evs b) \<le> capacity b"
proof (induction evs arbitrary: b)
  case Nil
  then show ?case by simp
next
  case (Cons e evs)
  from Cons.prems have "tokens (step clock e b) \<le> capacity (step clock e b)"
    by (simp add: step_upper)
  from Cons.IH [OF this] show ?case by simp
qed

lemma run_clock: "clock_inv clock b \<Longrightarrow> clock_inv clock (run clock evs b)"
  by (induction evs arbitrary: b) (simp_all add: step_clock)

lemma run_lower:
  "mono clock \<Longrightarrow> 0 \<le> capacity b \<Longrightarrow> 0 \<le> refillRate b \<Longrightarrow> clock_inv clock b \<Longrightarrow>
   0 \<le> tokens b \<Longrightarrow> 0 \<le> tokens (run clock evs b)"
proof (induction evs arbitrary: b)
  case Nil
  then show ?case by simp
next
  case (Cons e evs)
  have "0 \<le> tokens (run clock evs (step clock e b))"
    using Cons.prems by (intro Cons.IH) (simp_all add: step_clock step_lower)
  then show ?case by simp
qed

lemma run_conserve:
  "tokens b + real (length (resolved b)) \<le> capacity b + refillRate b * (lastRefill b - t0) \<Longrightarrow>
   tokens (run clock evs b) + real (length (resolved (run clock evs b)))
     \<le> capacity b + refillRate b * (lastRefill (run clock evs b) - t0)"
proof (induction evs arbitrary: b)
  case Nil
  then show ?case by simp
next
  case (Cons e evs)
  have "tokens (step clock e b) + real (length (resolved (step clock e b)))
     \<le> capacity (step clock e b) + refillRate (step clock e b) * (lastRefill (step clock e b) - t0)"
    using step_conserve [OF Cons.prems] by simp
  from Cons.IH [OF this] show ?case by simp
qed

subsection \<open>A new bucket\<close>

lemma new_fields [simp]:
  "capacity (TokenBucket_new clock C R) = C"
  "tokens (TokenBucket_new clock C R) = C"
  "refillRate (TokenBucket_new clock C R) = R"
  "lastRefill (TokenBucket_new clock C R) = clock 0"
  "queue (TokenBucket_new clock C R) = []"
  "processing (TokenBucket_new clock C R) = False"
  "reads (TokenBucket_new clock C R) = 1"
  "timers (TokenBucket_new clock C R) = []"
  "resolved (TokenBucket_new clock C R) = []"
  by (simp_all add: TokenBucket_new_def)

lemma new_drain: "drain_inv (TokenBucket_new clock C R)"
  by (simp add: drain_inv_def)

lemma new_clock: "clock_inv clock (TokenBucket_new clock C R)"
  by (simp add: clock_inv_def)

subsection \<open>A clock that stands still\<close>

lemma tick_exact:
  assumes frozen: "\<forall>n. clock n = t"
  shows "lastRefill b = t \<Longrightarrow> tokens b \<le> capacity b \<Longrightarrow>
   tokens (tick clock b) + real (length (resolved (tick clock b)))
     = tokens b + real (length (resolved b)) \<and> lastRefill (tick clock b) = t"
proof (induction b rule: tick_cases_induct [where clock = clock])
  case (empty b)
  then show ?case by (simp add: tick_Nil)
next
  case (wait b q qs)
  have c: "clock (reads b) = t" using frozen by blast
  with wait show ?case by (simp add: tick_wait refill_tokens)
next
  case (grant b q qs)
  have c: "clock (reads b) = t" using frozen by blast
  have r: "tokens (refill clock b) = tokens b"
    using c grant.prems by (simp add: refill_tokens)
  have "tokens (tick clock b) = tokens (tick clock ((refill clock b)\<lparr>tokens := tokens (refill clock b) - 1,
            queue := qs, resolved := resolved b @ [q]\<rparr>))"
    and "resolved (tick clock b) = resolved (tick clock ((refill clock b)\<lparr>tokens := tokens (refill clock b) - 1,
            queue := qs, resolved := resolved b @ [q]\<rparr>))"
    and "lastRefill (tick clock b) = lastRefill (tick clock ((refill clock b)\<lparr>tokens := tokens (refill clock b) - 1,
            queue := qs, resolved := resolved b @ [q]\<rparr>))"
    using tick_grant [OF grant.hyps] by simp_all
  moreover have "tokens (tick clock ((refill clock b)\<lparr>tokens := tokens (refill clock b) - 1,
            queue := qs, resolved := resolved b @ [q]\<rparr>)) +
       real (length (resolved (tick clock ((refill clock b)\<lparr>tokens := tokens (refill clock b) - 1,
            queue := qs, resolved := resolved b @ [q]\<rparr>))))
       = tokens b + real (length (resolved b)) \<and>
       lastRefill (tick clock ((refill clock b)\<lparr>tokens := tokens (refill clock b) - 1,
            queue := qs, resolved := resolved b @ [q]\<rparr>)) = t"
    using grant.IH c r grant.prems by simp
  ultimately show ?case by simp
qed

lemma step_exact:
  assumes frozen: "\<forall>n. clock n = t"
  shows "lastRefill b = t \<Longrightarrow> tokens b \<le> capacity b \<Longrightarrow>
   tokens (step clock e b) + real (length (resolved (step clock e b)))
     = tokens b + real (length (resolved b)) \<and> lastRefill (step clock e b) = t"
  using tick_exact [OF frozen, of "b\<lparr>queue := queue b @ [i], processing := True\<rparr>" for i]
        tick_exact [OF frozen, of "b\<lparr>timers := ds\<rparr>" for ds]
  by (cases e) (simp_all add: acquire_def process_def split: list.splits)

lemma run_exact:
  assumes frozen: "\<forall>n. clock n = t"
  shows "lastRefill b = t \<Longrightarrow> tokens b \<le> capacity b \<Longrightarrow>
   tokens (run clock evs b) + real (length (resolved (run clock evs b)))
     = tokens b + real (length (resolved b))"
proof (induction evs arbitrary: b)
  case Nil
  then show ?case by simp
next
  case (Cons e evs)
  have s: "tokens (step clock e b) + real (length (resolved (step clock e b)))
             = tokens b + real (length (resolved b))"
    and l: "lastRefill (step clock e b) = t"
    using step_exact [OF frozen, of b e] Cons.prems by simp_all
  have u: "tokens (step clock e b) \<le> capacity (step clock e b)"
    using Cons.prems by (simp add: step_upper)
  show ?case using Cons.IH [OF l u] s by simp
qed

subsection \<open>Acquisitions at the instant of creation\<close>






subsection \<open>One event on a bucket that is idle or waits on its timer\<close>

lemma refill_update:
  "refill clock (b\<lparr>timers := ds\<rparr>) = (refill clock b)\<lparr>timers := ds\<rparr>"
  "refill clock (b\<lparr>queue := qs\<rparr>) = (refill clock b)\<lparr>queue := qs\<rparr>"
  "refill clock (b\<lparr>processing := p\<rparr>) = (refill clock b)\<lparr>processing := p\<rparr>"
  by (simp_all add: refill_def Let_def)

lemma acquire_idle_grants:
  assumes "\<not> processing b" and "queue b = []" and "1 \<le> tokens (refill clock b)"
  shows "acquire clock i b =
           (refill clock b)\<lparr>tokens := tokens (refill clock b) - 1, resolved := resolved b @ [i]\<rparr>"
proof -
  let ?s = "b\<lparr>queue := [i], processing := True\<rparr>"
  have q: "queue ?s = [i]" by simp
  have t: "1 \<le> tokens (refill clock ?s)" using assms(3) by (simp add: refill_update)
  have "acquire clock i b = tick clock ?s"
    using assms(1,2) by (simp add: acquire_def process_def)
  also have "\<dots> = tick clock ((refill clock ?s)\<lparr>tokens := tokens (refill clock ?s) - 1,
                                 queue := [], resolved := resolved ?s @ [i]\<rparr>)"
    by (rule tick_grant [OF q t])
  also have "\<dots> = (refill clock ?s)\<lparr>tokens := tokens (refill clock ?s) - 1,
                                 queue := [], resolved := resolved ?s @ [i], processing := False\<rparr>"
    by (simp add: tick_Nil)
  also have "\<dots> = (refill clock b)\<lparr>tokens := tokens (refill clock b) - 1,
                                      resolved := resolved b @ [i]\<rparr>"
    using assms(1,2) by (cases b) (simp add: refill_def Let_def)
  finally show ?thesis .
qed

lemma acquire_idle_waits:
  assumes "\<not> processing b" and "queue b = []" and "timers b = []"
    and "tokens (refill clock b) < 1"
  shows "acquire clock i b =
           (refill clock b)\<lparr>queue := [i], processing := True,
                             timers := [(1 - tokens (refill clock b)) / refillRate b]\<rparr>"
proof -
  let ?s = "b\<lparr>queue := [i], processing := True\<rparr>"
  have q: "queue ?s = [i]" by simp
  have t: "\<not> 1 \<le> tokens (refill clock ?s)" using assms(4) by (simp add: refill_update)
  have "acquire clock i b = tick clock ?s"
    using assms(1,2) by (simp add: acquire_def process_def)
  also have "\<dots> = (refill clock ?s)\<lparr>timers := timers ?s @ [(1 - tokens (refill clock ?s)) / refillRate ?s]\<rparr>"
    by (rule tick_wait [OF q t])
  also have "\<dots> = (refill clock b)\<lparr>queue := [i], processing := True,
                             timers := [(1 - tokens (refill clock b)) / refillRate b]\<rparr>"
    using assms(3) by (cases b) (simp add: refill_def Let_def)
  finally show ?thesis .
qed

lemma callback_waits:
  assumes "timers b = [d]" and "queue b \<noteq> []" and "tokens (refill clock b) < 1"
  shows "step clock TimerFires b =
           (refill clock b)\<lparr>timers := [(1 - tokens (refill clock b)) / refillRate b]\<rparr>"
proof -
  obtain q qs where q: "queue (b\<lparr>timers := []\<rparr>) = q # qs"
    using assms(2) by (cases "queue b") auto
  have t: "\<not> 1 \<le> tokens (refill clock (b\<lparr>timers := []\<rparr>))"
    using assms(3) by (simp add: refill_update)
  have "step clock TimerFires b = tick clock (b\<lparr>timers := []\<rparr>)"
    using assms(1) by simp
  also have "\<dots> = (refill clock (b\<lparr>timers := []\<rparr>))
       \<lparr>timers := timers (b\<lparr>timers := []\<rparr>) @
          [(1 - tokens (refill clock (b\<lparr>timers := []\<rparr>))) / refillRate (b\<lparr>timers := []\<rparr>)]\<rparr>"
    by (rule tick_wait [OF q t])
  also have "\<dots> = (refill clock b)\<lparr>timers := [(1 - tokens (refill clock b)) / refillRate b]\<rparr>"
    by (simp add: refill_update)
  finally show ?thesis .
qed

lemma callback_grants:
  assumes "timers b = [d]" and "queue b \<noteq> []" and "1 \<le> tokens (refill clock b)"
  shows "step clock TimerFires b =
           tick clock ((refill clock b)\<lparr>tokens := tokens (refill clock b) - 1,
                                       queue := tl (queue b),
                                       resolved := resolved b @ [hd (queue b)],
                                       timers := []\<rparr>)"
proof -
  obtain q qs where q0: "queue b = q # qs"
    using assms(2) by (cases "queue b") auto
  then have q: "queue (b\<lparr>timers := []\<rparr>) = q # qs" by simp
  have t: "1 \<le> tokens (refill clock (b\<lparr>timers := []\<rparr>))"
    using assms(3) by (simp add: refill_update)
  have "step clock TimerFires b = tick clock (b\<lparr>timers := []\<rparr>)"
    using assms(1) by simp
  also have "\<dots> = tick clock ((refill clock (b\<lparr>timers := []\<rparr>))
       \<lparr>tokens := tokens (refill clock (b\<lparr>timers := []\<rparr>)) - 1, queue := qs,
        resolved := resolved (b\<lparr>timers := []\<rparr>) @ [q]\<rparr>)"
    by (rule tick_grant [OF q t])
  also have "(refill clock (b\<lparr>timers := []\<rparr>))
       \<lparr>tokens := tokens (refill clock (b\<lparr>timers := []\<rparr>)) - 1, queue := qs,
        resolved := resolved (b\<lparr>timers := []\<rparr>) @ [q]\<rparr>
     = (refill clock b)\<lparr>tokens := tokens (refill clock b) - 1, queue := tl (queue b),
                         resolved := resolved b @ [hd (queue b)], timers := []\<rparr>"
    using q0 by (cases b) (simp add: refill_def Let_def)
  finally show ?thesis .
qed

lemma callback_grants_last:
  assumes "timers b = [d]" and "queue b \<noteq> []" and "1 \<le> tokens (refill clock b)"
    and "tl (queue b) = []"
  shows "step clock TimerFires b =
           (refill clock b)\<lparr>tokens := tokens (refill clock b) - 1, queue := [],
                             resolved := resolved b @ [hd (queue b)], timers := [],
                             processing := False\<rparr>"
proof -
  have "step clock TimerFires b =
           tick clock ((refill clock b)\<lparr>tokens := tokens (refill clock b) - 1,
                                       queue := tl (queue b),
                                       resolved := resolved b @ [hd (queue b)],
                                       timers := []\<rparr>)"
    by (rule callback_grants [OF assms(1,2,3)])
  also have "\<dots> = (refill clock b)\<lparr>tokens := tokens (refill clock b) - 1, queue := [],
                             resolved := resolved b @ [hd (queue b)], timers := [],
                             processing := False\<rparr>"
    using assms(4) by (simp add: tick_Nil)
  finally show ?thesis .
qed

subsection \<open>The range of the token count\<close>

text \<open>
  C3, as the claim has it, at a clock that is set back: a bucket of capacity \<open>1\<close> and
  rate \<open>1\<close> is created when the clock reads \<open>1000\<close>; at the first \<^verbatim>\<open>acquire()\<close> the
  clock reads \<open>0\<close>, the refill adds \<open>-1000\<close> tokens, and the count is \<open>-999\<close>.
\<close>

theorem bucket_negative_counterexample:
  "\<not> 0 \<le> tokens (run (\<lambda>n. if n = 0 then 1000 else 0) [Acquire 0]
                    (TokenBucket_new (\<lambda>n. if n = 0 then 1000 else 0) 1 1))"
  by (simp add: acquire_def process_def tick_wait refill_tokens)

text \<open>
  C3, amended: for a bucket created with capacity \<open>C \<ge> 1\<close> and rate \<open>R > 0\<close>, after
  every sequence of \<^verbatim>\<open>acquire()\<close> calls and timer callbacks, the token count is at
  most \<open>C\<close>, and it is at least \<open>0\<close> provided the readings of the clock never decrease.
\<close>

theorem bucket_range:
  assumes "1 \<le> C" and "0 < R"
  shows "tokens (run clock evs (TokenBucket_new clock C R)) \<le> C \<and>
         (mono clock \<longrightarrow> 0 \<le> tokens (run clock evs (TokenBucket_new clock C R)))"
proof (intro conjI impI)
  show "tokens (run clock evs (TokenBucket_new clock C R)) \<le> C"
    using run_upper [of "TokenBucket_new clock C R" clock evs] by simp
next
  assume "mono clock"
  then show "0 \<le> tokens (run clock evs (TokenBucket_new clock C R))"
    using assms by (intro run_lower new_clock) simp_all
qed

theorem bucket_range_witness:
  "(1::real) \<le> 2 \<and> (0::real) < 1 / 10 \<and> mono (\<lambda>n. real n * 20) \<and>
   tokens (run (\<lambda>n. real n * 20) [Acquire 0, Acquire 1, Acquire 2, TimerFires]
             (TokenBucket_new (\<lambda>n. real n * 20) 2 (1 / 10))) = 1 \<and>
   tokens (run (\<lambda>n. if n = 0 then 1000 else 0) [Acquire 0]
             (TokenBucket_new (\<lambda>n. if n = 0 then 1000 else 0) 2 (1 / 10))) \<le> 2"
proof -
  have m: "mono (\<lambda>n. real n * 20)" by (simp add: mono_def)
  have c: "(1::real) \<le> 2" and r: "(0::real) < 1 / 10" by simp_all
  have v: "tokens (run (\<lambda>n. real n * 20) [Acquire 0, Acquire 1, Acquire 2, TimerFires]
             (TokenBucket_new (\<lambda>n. real n * 20) 2 (1 / 10))) = 1"
    by (simp add: acquire_def process_def tick_grant tick_Nil refill_tokens)
  show ?thesis
    using m c r v
      bucket_range [OF c r, of "\<lambda>n. real n * 20" "[Acquire 0, Acquire 1, Acquire 2, TimerFires]"]
      bucket_range [OF c r, of "\<lambda>n. if n = 0 then 1000 else 0" "[Acquire 0]"]
    by simp
qed

subsection \<open>Order of service, single drain loop, one token per grant\<close>

text \<open>
  C4: after every sequence of \<^verbatim>\<open>acquire()\<close> calls and timer callbacks on a new bucket,
  at every clock: the callers resumed so far, followed by the callers still queued, are
  the callers in their order of arrival; at most one timer of the drain loop is pending,
  one is pending exactly when the \<^verbatim>\<open>processing\<close> flag is set, and the flag is set
  exactly when a caller waits; an \<^verbatim>\<open>acquire()\<close> that arrives while the flag is set only
  appends its caller to the queue; one that arrives while the flag is not set refills the
  bucket and either takes exactly one token and resumes its caller at once, or queues its
  caller and sets the timer; a timer callback refills the bucket and either sets the
  timer again, or takes exactly one token, resumes the caller at the head of the queue and
  goes on with the rest of the queue, which ends the drain loop when nobody else waits;
  the drain loop, in whatever state \<open>s\<close>, ends on an empty queue, grants the head of the
  queue exactly one token and goes on when the refilled count is at least one, and sets a
  timer otherwise; the tokens left plus the number of grants never exceed the
  capacity plus what the rate yields for the time elapsed, so no token is granted twice;
  and while the clock stands still the tokens left plus the number of grants are exactly
  the capacity.
\<close>

theorem bucket_fifo:
  "let b = run clock evs (TokenBucket_new clock C R); r = refill clock b in
     resolved b @ queue b = arrivals evs \<and>
     length (timers b) \<le> 1 \<and>
     (processing b \<longleftrightarrow> timers b \<noteq> []) \<and>
     (processing b \<longleftrightarrow> queue b \<noteq> []) \<and>
     (processing b \<longrightarrow> acquire clock i b = b\<lparr>queue := queue b @ [i]\<rparr>) \<and>
     (\<not> processing b \<and> 1 \<le> tokens r \<longrightarrow>
        acquire clock i b = r\<lparr>tokens := tokens r - 1, resolved := resolved b @ [i]\<rparr>) \<and>
     (\<not> processing b \<and> tokens r < 1 \<longrightarrow>
        acquire clock i b =
          r\<lparr>queue := [i], processing := True, timers := [(1 - tokens r) / R]\<rparr>) \<and>
     (processing b \<and> tokens r < 1 \<longrightarrow>
        step clock TimerFires b = r\<lparr>timers := [(1 - tokens r) / R]\<rparr>) \<and>
     (processing b \<and> 1 \<le> tokens r \<longrightarrow>
        step clock TimerFires b =
          tick clock (r\<lparr>tokens := tokens r - 1, queue := tl (queue b),
                        resolved := resolved b @ [hd (queue b)], timers := []\<rparr>)) \<and>
     (processing b \<and> 1 \<le> tokens r \<and> tl (queue b) = [] \<longrightarrow>
        step clock TimerFires b =
          r\<lparr>tokens := tokens r - 1, queue := [], resolved := resolved b @ [hd (queue b)],
            timers := [], processing := False\<rparr>) \<and>
     (queue s = [] \<longrightarrow> tick clock s = s\<lparr>processing := False\<rparr>) \<and>
     (queue s = q # qs \<and> 1 \<le> tokens (refill clock s) \<longrightarrow>
        tick clock s =
          tick clock ((refill clock s)\<lparr>tokens := tokens (refill clock s) - 1, queue := qs,
                                      resolved := resolved s @ [q]\<rparr>)) \<and>
     (queue s = q # qs \<and> tokens (refill clock s) < 1 \<longrightarrow>
        tick clock s =
          (refill clock s)\<lparr>timers := timers s @ [(1 - tokens (refill clock s)) / refillRate s]\<rparr>) \<and>
     tokens b + real (length (resolved b)) \<le> C + R * (lastRefill b - clock 0) \<and>
     ((\<forall>n. clock n = clock 0) \<longrightarrow> tokens b + real (length (resolved b)) = C)"
proof -
  define b where "b = run clock evs (TokenBucket_new clock C R)"
  define r where "r = refill clock b"
  have inv: "drain_inv b"
    unfolding b_def by (rule run_drain [OF new_drain])
  have R: "refillRate b = R" by (simp add: b_def)
  have idle: "queue b = []" "timers b = []" if "\<not> processing b"
    using inv that by (simp_all add: drain_inv_def)
  have busy: "queue b \<noteq> []" "\<exists>d. timers b = [d]" if "processing b"
  proof -
    show "queue b \<noteq> []" using inv that by (simp add: drain_inv_def)
    have "timers b \<noteq> []" "length (timers b) \<le> 1" using inv that by (simp_all add: drain_inv_def)
    then show "\<exists>d. timers b = [d]" by (cases "timers b") auto
  qed
  have c1: "resolved b @ queue b = arrivals evs"
    unfolding b_def using run_fifo [of clock evs "TokenBucket_new clock C R"] by simp
  have c2: "length (timers b) \<le> 1" "processing b \<longleftrightarrow> timers b \<noteq> []"
    "processing b \<longleftrightarrow> queue b \<noteq> []"
    using inv by (auto simp add: drain_inv_def)
  have c3: "processing b \<longrightarrow> acquire clock i b = b\<lparr>queue := queue b @ [i]\<rparr>"
    by (simp add: acquire_def process_def)
  have c4: "\<not> processing b \<and> 1 \<le> tokens r \<longrightarrow>
        acquire clock i b = r\<lparr>tokens := tokens r - 1, resolved := resolved b @ [i]\<rparr>"
    unfolding r_def using idle by (auto intro: acquire_idle_grants)
  have c5: "\<not> processing b \<and> tokens r < 1 \<longrightarrow>
        acquire clock i b =
          r\<lparr>queue := [i], processing := True, timers := [(1 - tokens r) / R]\<rparr>"
    unfolding r_def using idle acquire_idle_waits [of b clock i] R by auto
  have c6: "processing b \<and> tokens r < 1 \<longrightarrow>
        step clock TimerFires b = r\<lparr>timers := [(1 - tokens r) / R]\<rparr>"
  proof
    assume a: "processing b \<and> tokens r < 1"
    then obtain d where d: "timers b = [d]" using busy(2) by blast
    from callback_waits [OF d busy(1)] a R
    show "step clock TimerFires b = r\<lparr>timers := [(1 - tokens r) / R]\<rparr>"
      by (simp add: r_def)
  qed
  have c7: "processing b \<and> 1 \<le> tokens r \<longrightarrow>
        step clock TimerFires b =
          tick clock (r\<lparr>tokens := tokens r - 1, queue := tl (queue b),
                        resolved := resolved b @ [hd (queue b)], timers := []\<rparr>)"
  proof
    assume a: "processing b \<and> 1 \<le> tokens r"
    then obtain d where d: "timers b = [d]" using busy(2) by blast
    from callback_grants [OF d busy(1)] a
    show "step clock TimerFires b =
          tick clock (r\<lparr>tokens := tokens r - 1, queue := tl (queue b),
                        resolved := resolved b @ [hd (queue b)], timers := []\<rparr>)"
      by (simp add: r_def)
  qed
  have c8: "processing b \<and> 1 \<le> tokens r \<and> tl (queue b) = [] \<longrightarrow>
        step clock TimerFires b =
          r\<lparr>tokens := tokens r - 1, queue := [], resolved := resolved b @ [hd (queue b)],
            timers := [], processing := False\<rparr>"
  proof
    assume a: "processing b \<and> 1 \<le> tokens r \<and> tl (queue b) = []"
    then obtain d where d: "timers b = [d]" using busy(2) by blast
    from callback_grants_last [OF d busy(1)] a
    show "step clock TimerFires b =
          r\<lparr>tokens := tokens r - 1, queue := [], resolved := resolved b @ [hd (queue b)],
            timers := [], processing := False\<rparr>"
      by (simp add: r_def)
  qed
  have c9: "queue s = [] \<longrightarrow> tick clock s = s\<lparr>processing := False\<rparr>"
    by (simp add: tick_Nil)
  have c10: "queue s = q # qs \<and> 1 \<le> tokens (refill clock s) \<longrightarrow>
        tick clock s =
          tick clock ((refill clock s)\<lparr>tokens := tokens (refill clock s) - 1, queue := qs,
                                      resolved := resolved s @ [q]\<rparr>)"
    by (auto intro: tick_grant)
  have c11: "queue s = q # qs \<and> tokens (refill clock s) < 1 \<longrightarrow>
        tick clock s =
          (refill clock s)\<lparr>timers := timers s @ [(1 - tokens (refill clock s)) / refillRate s]\<rparr>"
    by (auto intro: tick_wait)
  have c12: "tokens b + real (length (resolved b)) \<le> C + R * (lastRefill b - clock 0)"
    unfolding b_def using run_conserve [of "TokenBucket_new clock C R" "clock 0" clock evs]
    by simp
  have c13: "(\<forall>n. clock n = clock 0) \<longrightarrow> tokens b + real (length (resolved b)) = C"
  proof
    assume "\<forall>n. clock n = clock 0"
    from run_exact [OF this, of "TokenBucket_new clock C R" evs]
    show "tokens b + real (length (resolved b)) = C"
      by (simp add: b_def)
  qed
  from c1 c2 c3 c4 c5 c6 c7 c8 c9 c10 c11 c12 c13 show ?thesis
    unfolding Let_def b_def [symmetric] r_def [symmetric] by blast
qed

theorem bucket_fifo_witness:
  "(\<forall>n. (\<lambda>n::nat. 0::real) n = (\<lambda>n::nat. 0::real) 0) \<and>
   (let b = run (\<lambda>n. 0) [Acquire 5, Acquire 7, TimerFires] (TokenBucket_new (\<lambda>n. 0) 1 1) in
      resolved b = [5] \<and> queue b = [7] \<and> timers b = [1] \<and> processing b \<and> tokens b = 0 \<and>
      tokens b + real (length (resolved b)) = 1 \<and>
      queue (acquire (\<lambda>n. 0) 6 b) = [7, 6] \<and> timers (acquire (\<lambda>n. 0) 6 b) = [1] \<and>
      resolved (acquire (\<lambda>n. 0) 6 b) = [5] \<and>
      tokens (refill (\<lambda>n. 0) b) < 1 \<and>
      step (\<lambda>n. 0) TimerFires b = (refill (\<lambda>n. 0) b)\<lparr>timers := [1]\<rparr>) \<and>
   (let b = TokenBucket_new (\<lambda>k. if k \<le> 3 then 0 else 1500) 2 (1 / 1000) in
      \<not> processing b \<and> 1 \<le> tokens (refill (\<lambda>k. if k \<le> 3 then 0 else 1500) b) \<and>
      acquire (\<lambda>k. if k \<le> 3 then 0 else 1500) 5 b
        = (refill (\<lambda>k. if k \<le> 3 then 0 else 1500) b)\<lparr>tokens := 1, resolved := [5]\<rparr>) \<and>
   (let b = run (\<lambda>k. if k \<le> 3 then 0 else 1500) [Acquire 5, Acquire 6]
              (TokenBucket_new (\<lambda>k. if k \<le> 3 then 0 else 1500) 2 (1 / 1000)) in
      \<not> processing b \<and> tokens (refill (\<lambda>k. if k \<le> 3 then 0 else 1500) b) < 1 \<and>
      acquire (\<lambda>k. if k \<le> 3 then 0 else 1500) 7 b
        = (refill (\<lambda>k. if k \<le> 3 then 0 else 1500) b)
            \<lparr>queue := [7], processing := True, timers := [1000]\<rparr>) \<and>
   (let b = run (\<lambda>k. if k \<le> 3 then 0 else 1500) [Acquire 5, Acquire 6, Acquire 7]
              (TokenBucket_new (\<lambda>k. if k \<le> 3 then 0 else 1500) 2 (1 / 1000)) in
      processing b \<and> resolved b = [5, 6] \<and> queue b = [7] \<and> timers b = [1000] \<and>
      tokens (refill (\<lambda>k. if k \<le> 3 then 0 else 1500) b) = 3 / 2 \<and>
      step (\<lambda>k. if k \<le> 3 then 0 else 1500) TimerFires b
        = (refill (\<lambda>k. if k \<le> 3 then 0 else 1500) b)
            \<lparr>tokens := 1 / 2, queue := [], resolved := [5, 6, 7], timers := [],
              processing := False\<rparr>)"
proof -
  let ?K = "\<lambda>k::nat. if k \<le> 3 then 0 else 1500::real"
  note ev = Let_def acquire_def process_def tick_wait tick_grant tick_Nil refill_tokens
  have a: "(\<forall>n. (\<lambda>n::nat. 0::real) n = (\<lambda>n::nat. 0::real) 0) \<and>
   (let b = run (\<lambda>n. 0) [Acquire 5, Acquire 7, TimerFires] (TokenBucket_new (\<lambda>n. 0) 1 1) in
      resolved b = [5] \<and> queue b = [7] \<and> timers b = [1] \<and> processing b \<and> tokens b = 0 \<and>
      tokens b + real (length (resolved b)) = 1 \<and>
      queue (acquire (\<lambda>n. 0) 6 b) = [7, 6] \<and> timers (acquire (\<lambda>n. 0) 6 b) = [1] \<and>
      resolved (acquire (\<lambda>n. 0) 6 b) = [5] \<and>
      tokens (refill (\<lambda>n. 0) b) < 1 \<and>
      step (\<lambda>n. 0) TimerFires b = (refill (\<lambda>n. 0) b)\<lparr>timers := [1]\<rparr>)"
    using bucket_fifo [of "\<lambda>n. 0" "[Acquire 5, Acquire 7, TimerFires]" 1 1 6]
    by (simp add: ev)
  have b: "(let b = TokenBucket_new ?K 2 (1 / 1000) in
      \<not> processing b \<and> 1 \<le> tokens (refill ?K b) \<and>
      acquire ?K 5 b = (refill ?K b)\<lparr>tokens := 1, resolved := [5]\<rparr>)"
    using bucket_fifo [of ?K "[]" 2 "1 / 1000" 5]
    by (simp add: ev)
  have c: "(let b = run ?K [Acquire 5, Acquire 6] (TokenBucket_new ?K 2 (1 / 1000)) in
      \<not> processing b \<and> tokens (refill ?K b) < 1 \<and>
      acquire ?K 7 b = (refill ?K b)\<lparr>queue := [7], processing := True, timers := [1000]\<rparr>)"
    using bucket_fifo [of ?K "[Acquire 5, Acquire 6]" 2 "1 / 1000" 7]
    by (simp add: ev)
  have d: "(let b = run ?K [Acquire 5, Acquire 6, Acquire 7] (TokenBucket_new ?K 2 (1 / 1000)) in
      processing b \<and> resolved b = [5, 6] \<and> queue b = [7] \<and> timers b = [1000] \<and>
      tokens (refill ?K b) = 3 / 2 \<and>
      step ?K TimerFires b
        = (refill ?K b)\<lparr>tokens := 1 / 2, queue := [], resolved := [5, 6, 7], timers := [],
                         processing := False\<rparr>)"
    using bucket_fifo [of ?K "[Acquire 5, Acquire 6, Acquire 7]" 2 "1 / 1000"]
    by (simp add: ev)
  from a b c d show ?thesis by blast
qed

section \<open>Properties of the request executor\<close>

subsection \<open>The cases of one attempt\<close>

declare request.simps [simp del]

lemma send_responds:
  "out = Responds res \<Longrightarrow>
   send c out verb path body = (prelude c verb path body @ [ClearTimeout], Inr res)"
  by (simp add: send_def await_fetch_def aborted_def)

lemma send_pending:
  "out = Pending_at_deadline \<Longrightarrow>
   send c out verb path body =
     (prelude c verb path body @ [Abort, ClearTimeout, ClearTimeout],
      Inl (ApiError (OxfordAPIError_new ''Request timed out'' 408 JUndefined)))"
  by (simp add: send_def await_fetch_def aborted_def)

lemma send_rejects:
  "out = Rejects ename emsg \<Longrightarrow>
   send c out verb path body =
     (prelude c verb path body @ [ClearTimeout, ClearTimeout],
      Inl (ApiError (if ename = ''AbortError''
                     then OxfordAPIError_new ''Request timed out'' 408 JUndefined
                     else OxfordAPIError_new (''Network error: '' @ emsg) 0 JUndefined)))"
  by (simp add: send_def await_fetch_def aborted_def)

lemma request_pending:
  "net attempt = Pending_at_deadline \<Longrightarrow>
   request c rt net verb path body attempt =
     (prelude c verb path body @ [Abort, ClearTimeout, ClearTimeout],
      Inl (ApiError (OxfordAPIError_new ''Request timed out'' 408 JUndefined)))"
  by (simp add: request.simps [of c rt net verb path body attempt] send_pending)

lemma request_rejected:
  "net attempt = Rejects ename emsg \<Longrightarrow>
   request c rt net verb path body attempt =
     (prelude c verb path body @ [ClearTimeout, ClearTimeout],
      Inl (ApiError (if ename = ''AbortError''
                     then OxfordAPIError_new ''Request timed out'' 408 JUndefined
                     else OxfordAPIError_new (''Network error: '' @ emsg) 0 JUndefined)))"
  by (simp add: request.simps [of c rt net verb path body attempt] send_rejects)

lemma request_retry:
  "net attempt = Responds res \<Longrightarrow> res_status res = 429 \<Longrightarrow> int attempt < maxRetries c \<Longrightarrow>
   request c rt net verb path body attempt =
     (prelude c verb path body @
        [ClearTimeout, Sleep (retry_wait (res_headers res ''Retry-After''))] @
        fst (request c rt net verb path body (Suc attempt)),
      snd (request c rt net verb path body (Suc attempt)))"
  by (simp add: request.simps [of c rt net verb path body attempt] Let_def send_responds)

lemma request_exhausted:
  "net attempt = Responds res \<Longrightarrow> res_status res = 429 \<Longrightarrow> \<not> int attempt < maxRetries c \<Longrightarrow>
   request c rt net verb path body attempt =
     (prelude c verb path body @ [ClearTimeout],
      Inl (ApiError (RateLimitError_new ''Rate limit exceeded''
                       (header_value (res_headers res ''Retry-After'')))))"
  by (simp add: request.simps [of c rt net verb path body attempt] send_responds)

lemma request_settled:
  "net attempt = Responds res \<Longrightarrow> res_status res \<noteq> 429 \<Longrightarrow>
   request c rt net verb path body attempt =
     (prelude c verb path body @ [ClearTimeout], settle rt path res)"
  by (simp add: request.simps [of c rt net verb path body attempt] send_responds)

lemma request_prelude:
  "take (length (prelude c verb path body)) (fst (request c rt net verb path body attempt))
     = prelude c verb path body"
proof (cases "net attempt")
  case Pending_at_deadline
  then show ?thesis by (simp add: request_pending)
next
  case (Rejects ename emsg)
  then show ?thesis by (simp add: request_rejected)
next
  case (Responds res)
  then show ?thesis
    by (cases "res_status res = 429"; cases "int attempt < maxRetries c")
       (simp_all add: request_retry request_exhausted request_settled)
qed


lemma error_records:
  "OxfordAPIError_new msg st JUndefined =
     \<lparr>name = ''OxfordAPIError'', message = msg, status = st, details = JNull, retryAfter = JUndefined\<rparr>"
  "RateLimitError_new msg (header_value h) =
     \<lparr>name = ''RateLimitError'', message = msg, status = 429, details = JNull,
      retryAfter = header_value h\<rparr>"
  "AuthError_new =
     \<lparr>name = ''AuthError'', message = ''Invalid API key or unauthorized access'', status = 403,
      details = JNull, retryAfter = JUndefined\<rparr>"
  by (simp_all add: OxfordAPIError_new_def RateLimitError_new_def AuthError_new_def
        header_value_def split: option.splits)

subsection \<open>Headers that are decimal numbers\<close>

lemma digit_not_ws: "is_digit 10 c \<Longrightarrow> \<not> is_ws c"
  by (auto simp add: is_digit_def digit_of_def is_ws_def Let_def split: if_splits option.splits)

lemma digit_not_letter:
  "is_digit 10 c \<Longrightarrow> c \<notin> set ''xXoObB+-.eEI''"
  by (auto simp add: is_digit_def digit_of_def Let_def split: if_splits option.splits)

lemma dropWhile_digits: "xs \<noteq> [] \<Longrightarrow> list_all (is_digit 10) xs \<Longrightarrow> dropWhile is_ws xs = xs"
  by (cases xs) (simp_all add: digit_not_ws)

lemma trim_digits:
  assumes "ds \<noteq> []" and "list_all (is_digit 10) ds"
  shows "trim ds = ds"
proof -
  have "list_all (is_digit 10) (rev ds)" using assms(2) by (simp add: list_all_iff)
  moreover have "rev ds \<noteq> []" using assms(1) by simp
  ultimately have "dropWhile is_ws (rev ds) = rev ds" by (rule dropWhile_digits [rotated])
  then show ?thesis using assms by (simp add: trim_def dropWhile_digits)
qed

lemma digits_no_prefix:
  assumes "list_all (is_digit 10) ds"
  shows "take 2 ds \<notin> {''0x'', ''0X'', ''0o'', ''0O'', ''0b'', ''0B''}"
proof (cases ds)
  case Nil
  then show ?thesis by simp
next
  case (Cons c cs)
  show ?thesis
  proof (cases cs)
    case Nil
    with Cons show ?thesis by simp
  next
    case (Cons d rest)
    with assms \<open>ds = c # cs\<close> have "is_digit 10 d" by simp
    from digit_not_letter [OF this] Cons \<open>ds = c # cs\<close> show ?thesis by auto
  qed
qed

lemma decimal_literal_digits:
  assumes "ds \<noteq> []" and "list_all (is_digit 10) ds"
  shows "decimal_literal ds = Some (real (digits_val 10 ds))"
proof -
  have t: "takeWhile (is_digit 10) ds = ds" and d: "dropWhile (is_digit 10) ds = []"
    using assms(2) by (simp_all add: list_all_iff)
  show ?thesis
    using assms(1) by (simp add: decimal_literal_def t d Let_def exponent_part_def pow10_def)
qed

lemma str_decimal_digits:
  assumes "ds \<noteq> []" and "list_all (is_digit 10) ds"
  shows "str_decimal ds = to_double (real (digits_val 10 ds))"
proof -
  obtain c cs where ds: "ds = c # cs" using assms(1) by (cases ds) auto
  with assms(2) have "is_digit 10 c" by simp
  from digit_not_letter [OF this] have c: "c \<noteq> CHR ''+''" "c \<noteq> CHR ''-''" "c \<noteq> CHR ''I''"
    by auto
  then have "ds \<noteq> ''Infinity''" using ds by auto
  then show ?thesis
    using c ds decimal_literal_digits [OF assms(1,2)]
    by (simp add: str_decimal_def Let_def)
qed

lemma StringToNumber_digits:
  assumes "ds \<noteq> []" and "list_all (is_digit 10) ds"
  shows "StringToNumber ds = to_double (real (digits_val 10 ds))"
  using assms digits_no_prefix [OF assms(2)]
  by (simp add: StringToNumber_def trim_digits str_decimal_digits Let_def)

lemma to_double_1000: "to_double 1000 = Finite 1000"
  using to_double_nat [of 1000] by simp

lemma retry_wait_digits:
  assumes "ds \<noteq> []" and "list_all (is_digit 10) ds"
  shows "retry_wait (Some ds) = js_times (to_double (real (digits_val 10 ds))) (Finite 1000)"
  using assms by (simp add: retry_wait_def StringToNumber_digits)

lemma retry_wait_exact:
  assumes "ds \<noteq> []" and "list_all (is_digit 10) ds"
    and "real (digits_val 10 ds) * 1000 \<le> 2 ^ 53"
  shows "retry_wait (Some ds) = Finite (real (digits_val 10 ds) * 1000)"
proof -
  have "real (digits_val 10 ds) \<le> real (digits_val 10 ds) * 1000" by simp
  with assms(3) have "real (digits_val 10 ds) \<le> 2 ^ 53" by linarith
  then have a: "to_double (real (digits_val 10 ds)) = Finite (real (digits_val 10 ds))"
    by (rule to_double_nat)
  have "real (digits_val 10 ds * 1000) \<le> 2 ^ 53" using assms(3) by simp
  then have "to_double (real (digits_val 10 ds * 1000)) = Finite (real (digits_val 10 ds * 1000))"
    by (rule to_double_nat)
  then have b: "to_double (real (digits_val 10 ds) * 1000) = Finite (real (digits_val 10 ds) * 1000)"
    by simp
  show ?thesis
    using assms(1,2) by (simp add: retry_wait_digits a b)
qed

subsection \<open>Status 429\<close>

text \<open>
  C1, as the claim has it, at a header that is not a number: the HTTP standard allows a
  date in \<^verbatim>\<open>Retry-After\<close>. \<^verbatim>\<open>Number\<close> turns the date into \<^verbatim>\<open>NaN\<close>, the delay handed
  to \<^verbatim>\<open>setTimeout\<close> is \<^verbatim>\<open>NaN\<close> and not the \<open>1000\<close> ms of the claim, and the call is
  made again.
\<close>

theorem retry_unparseable_counterexample:
  "request demo_client demo_runtime
     (\<lambda>k. if k = 0
          then Responds (demo_response 429 ''Too Many Requests''
                           (Some ''Wed, 21 Oct 2015 07:28:00 GMT'') [])
          else Responds (demo_response 200 ''OK'' None ''[1]''))
     ''GET'' ''/server'' JUndefined 0
     = ([SetTimeout 10000, Fetch ''GET'' ''https://api.oxfd.re/v1/server'' ''key'' None,
         ClearTimeout, Sleep NaN,
         SetTimeout 10000, Fetch ''GET'' ''https://api.oxfd.re/v1/server'' ''key'' None,
         ClearTimeout],
        Inr (JArr [JNum (Finite 1)]))"
  by code_simp

text \<open>
  C1, amended: on a response with status 429, when the attempt count is below the maximum
  of retries (3 by default), the executor clears the timer, waits
  \<^verbatim>\<open>Number(header) * 1000\<close> ms, where an absent or empty \<^verbatim>\<open>Retry-After\<close> header counts as
  \<open>1\<close> and a header of decimal digits is the number of seconds it denotes, rounded to a
  double before and after the multiplication (so the wait is exactly the seconds times
  1000 as long as that product is at most \<open>2\<^sup>5\<^sup>3\<close>), and makes the
  whole call again with the attempt count one higher; the repeated call starts like every
  call, with a token from the bucket if there is a bucket. When the attempts are used up,
  the call fails with a \<^verbatim>\<open>RateLimitError\<close> of status 429 whose \<^verbatim>\<open>retryAfter\<close> is the
  header's value, \<^verbatim>\<open>null\<close> when there is no header.
\<close>

theorem retry_on_429:
  assumes "net attempt = Responds res" and "res_status res = 429"
  shows
    "(int attempt < maxRetries c \<longrightarrow>
        request c rt net verb path body attempt =
          (prelude c verb path body @
             [ClearTimeout, Sleep (retry_wait (res_headers res ''Retry-After''))] @
             fst (request c rt net verb path body (Suc attempt)),
           snd (request c rt net verb path body (Suc attempt))) \<and>
        take (length (prelude c verb path body))
             (fst (request c rt net verb path body (Suc attempt)))
          = prelude c verb path body) \<and>
     (\<not> int attempt < maxRetries c \<longrightarrow>
        request c rt net verb path body attempt =
          (prelude c verb path body @ [ClearTimeout],
           Inl (ApiError \<lparr>name = ''RateLimitError'', message = ''Rate limit exceeded'',
                           status = 429, details = JNull,
                           retryAfter = header_value (res_headers res ''Retry-After'')\<rparr>))) \<and>
     (bucket c \<noteq> None \<longrightarrow> hd (prelude c verb path body) = TakeToken) \<and>
     retry_wait None = Finite 1000 \<and>
     retry_wait (Some []) = Finite 1000 \<and>
     (ds \<noteq> [] \<and> list_all (is_digit 10) ds \<longrightarrow>
        retry_wait (Some ds) = js_times (to_double (real (digits_val 10 ds))) (Finite 1000)) \<and>
     (ds \<noteq> [] \<and> list_all (is_digit 10) ds \<and> real (digits_val 10 ds) * 1000 \<le> 2 ^ 53 \<longrightarrow>
        retry_wait (Some ds) = Finite (real (digits_val 10 ds) * 1000)) \<and>
     (key \<noteq> [] \<longrightarrow>
        map_sum id maxRetries (OxfordAPI_new clock (Some key) mode None tmo) = Inr 3)"
proof (intro conjI impI)
  assume "int attempt < maxRetries c"
  with assms show "request c rt net verb path body attempt =
          (prelude c verb path body @
             [ClearTimeout, Sleep (retry_wait (res_headers res ''Retry-After''))] @
             fst (request c rt net verb path body (Suc attempt)),
           snd (request c rt net verb path body (Suc attempt)))"
    by (simp add: request_retry)
next
  show "take (length (prelude c verb path body))
             (fst (request c rt net verb path body (Suc attempt)))
          = prelude c verb path body"
    by (rule request_prelude)
next
  assume "\<not> int attempt < maxRetries c"
  with assms show "request c rt net verb path body attempt =
          (prelude c verb path body @ [ClearTimeout],
           Inl (ApiError \<lparr>name = ''RateLimitError'', message = ''Rate limit exceeded'',
                           status = 429, details = JNull,
                           retryAfter = header_value (res_headers res ''Retry-After'')\<rparr>))"
    by (simp add: request_exhausted error_records)
next
  assume "bucket c \<noteq> None"
  then show "hd (prelude c verb path body) = TakeToken" by (simp add: prelude_def)
next
  show "retry_wait None = Finite 1000" by (simp add: retry_wait_def to_double_1000)
next
  show "retry_wait (Some []) = Finite 1000" by (simp add: retry_wait_def to_double_1000)
next
  assume "ds \<noteq> [] \<and> list_all (is_digit 10) ds"
  then show "retry_wait (Some ds) = js_times (to_double (real (digits_val 10 ds))) (Finite 1000)"
    by (simp add: retry_wait_digits)
next
  assume "ds \<noteq> [] \<and> list_all (is_digit 10) ds \<and> real (digits_val 10 ds) * 1000 \<le> 2 ^ 53"
  then show "retry_wait (Some ds) = Finite (real (digits_val 10 ds) * 1000)"
    by (simp add: retry_wait_exact)
next
  assume "key \<noteq> []"
  then show "map_sum id maxRetries (OxfordAPI_new clock (Some key) mode None tmo) = Inr 3"
    by (simp add: OxfordAPI_new_def)
qed

theorem retry_on_429_witness:
  "(\<lambda>k::nat. if k = 0 then Responds (demo_response 429 ''Too Many Requests'' (Some ''2'') [])
               else Responds (demo_response 200 ''OK'' None ''[1]'')) 0
     = Responds (demo_response 429 ''Too Many Requests'' (Some ''2'') []) \<and>
   res_status (demo_response 429 ''Too Many Requests'' (Some ''2'') []) = 429 \<and>
   request demo_client demo_runtime
     (\<lambda>k. if k = 0 then Responds (demo_response 429 ''Too Many Requests'' (Some ''2'') [])
          else Responds (demo_response 200 ''OK'' None ''[1]''))
     ''GET'' ''/server'' JUndefined 0
     = ([SetTimeout 10000, Fetch ''GET'' ''https://api.oxfd.re/v1/server'' ''key'' None,
         ClearTimeout, Sleep (Finite 2000),
         SetTimeout 10000, Fetch ''GET'' ''https://api.oxfd.re/v1/server'' ''key'' None,
         ClearTimeout],
        Inr (JArr [JNum (Finite 1)])) \<and>
   request (demo_client\<lparr>maxRetries := 0\<rparr>) demo_runtime
     (\<lambda>k. if k = 0 then Responds (demo_response 429 ''Too Many Requests'' (Some ''2'') [])
          else Responds (demo_response 200 ''OK'' None ''[1]''))
     ''GET'' ''/server'' JUndefined 0
     = ([SetTimeout 10000, Fetch ''GET'' ''https://api.oxfd.re/v1/server'' ''key'' None,
         ClearTimeout],
        Inl (ApiError \<lparr>name = ''RateLimitError'', message = ''Rate limit exceeded'',
                        status = 429, details = JNull, retryAfter = JStr ''2''\<rparr>))"
proof -
  let ?r = "demo_response 429 ''Too Many Requests'' (Some ''2'') []"
  let ?net = "\<lambda>k::nat. if k = 0 then Responds ?r else Responds (demo_response 200 ''OK'' None ''[1]'')"
  have h1: "?net 0 = Responds ?r" by simp
  have h2: "res_status ?r = 429" by (simp add: demo_response_def)
  have d: "''2'' \<noteq> [] \<and> list_all (is_digit 10) ''2''"
    by (simp add: is_digit_def digit_of_def)
  have v: "digits_val 10 ''2'' = 2" by (simp add: digits_val_def digit_of_def)
  have next_attempt: "request demo_client demo_runtime ?net ''GET'' ''/server'' JUndefined (Suc 0)
      = ([SetTimeout 10000, Fetch ''GET'' ''https://api.oxfd.re/v1/server'' ''key'' None,
          ClearTimeout], Inr (JArr [JNum (Finite 1)]))"
    by (simp add: request_settled [where res = "demo_response 200 ''OK'' None ''[1]''"]
          demo_response_def demo_client_def demo_runtime_def prelude_def settle_def
          parse_body_def res_ok_def)
  show ?thesis
    using retry_on_429 [where net = "?net" and attempt = 0 and res = "?r" and c = demo_client
            and rt = demo_runtime and verb = "''GET''" and path = "''/server''"
            and body = JUndefined and ds = "''2''"]
          retry_on_429 [where net = "?net" and attempt = 0 and res = "?r"
            and c = "demo_client\<lparr>maxRetries := 0\<rparr>"
            and rt = demo_runtime and verb = "''GET''" and path = "''/server''"
            and body = JUndefined]
          h2 d v next_attempt
    by (simp add: demo_response_def demo_client_def prelude_def header_value_def)
qed

subsection \<open>Status 503\<close>

text \<open>
  C2, as the claim has it, at an empty body: a response \<^verbatim>\<open>503 Service Unavailable\<close> with
  no body fails with the message \<^verbatim>\<open>Service Unavailable\<close>, the status text of the
  response, and not with the default message.
\<close>

theorem unavailable_503_counterexample:
  "snd (request demo_client demo_runtime
          (\<lambda>k. Responds (demo_response 503 ''Service Unavailable'' None []))
          ''GET'' ''/server'' JUndefined 0)
     = Inl (ApiError \<lparr>name = ''ServerUnavailableError'', message = ''Service Unavailable'',
                     status = 503, details = JNull, retryAfter = JUndefined\<rparr>)"
  by code_simp

text \<open>
  C2, amended: a response with status 503 makes the call fail. The value of the message
  is the \<^verbatim>\<open>message\<close> field of the parsed body when that is truthy, whatever its type;
  when the body has no \<^verbatim>\<open>message\<close> field, or a falsy one, it is the status text of the
  response, and the default \<^verbatim>\<open>Server data temporarily unavailable\<close> only when the status
  text is empty too. An empty body has no \<^verbatim>\<open>message\<close> field. The call fails with a
  \<^verbatim>\<open>ServerUnavailableError\<close> of status 503 whose message is that value converted to a
  string: a string as it is, a number as the runtime prints it, \<^verbatim>\<open>true\<close> as
  \<^verbatim>\<open>true\<close>, an object as \<^verbatim>\<open>[object Object]\<close>. When the conversion throws, as it does
  for an object with a \<^verbatim>\<open>toString\<close> property of its own, the call fails with that
  \<^verbatim>\<open>TypeError\<close> instead.
\<close>

theorem unavailable_503:
  assumes "net attempt = Responds res" and "res_status res = 503"
  shows
    "(let m = get_prop (parse_body rt (res_text res)) ''message'';
          v = (if truthy m then m
               else if res_statusText res \<noteq> [] then JStr (res_statusText res)
               else JStr ''Server data temporarily unavailable'')
      in snd (request c rt net verb path body attempt) =
           (case js_ToString (Number_toString rt) v of
              None \<Rightarrow> Inl (TypeError ''Cannot convert object to primitive value'')
            | Some s \<Rightarrow>
                Inl (ApiError \<lparr>name = ''ServerUnavailableError'', message = s, status = 503,
                                details = JNull, retryAfter = JUndefined\<rparr>))) \<and>
     (get_prop (parse_body rt (res_text res)) ''message'' = JStr s \<and> s \<noteq> [] \<longrightarrow>
        snd (request c rt net verb path body attempt) =
          Inl (ApiError \<lparr>name = ''ServerUnavailableError'', message = s, status = 503,
                          details = JNull, retryAfter = JUndefined\<rparr>)) \<and>
     (get_prop (parse_body rt (res_text res)) ''message'' = JNum n \<and> truthy (JNum n) \<longrightarrow>
        snd (request c rt net verb path body attempt) =
          Inl (ApiError \<lparr>name = ''ServerUnavailableError'', message = Number_toString rt n,
                          status = 503, details = JNull, retryAfter = JUndefined\<rparr>)) \<and>
     (get_prop (parse_body rt (res_text res)) ''message'' = JBool True \<longrightarrow>
        snd (request c rt net verb path body attempt) =
          Inl (ApiError \<lparr>name = ''ServerUnavailableError'', message = ''true'',
                          status = 503, details = JNull, retryAfter = JUndefined\<rparr>)) \<and>
     (get_prop (parse_body rt (res_text res)) ''message'' = JObj kvs \<and>
      map_of kvs ''toString'' = None \<longrightarrow>
        snd (request c rt net verb path body attempt) =
          Inl (ApiError \<lparr>name = ''ServerUnavailableError'', message = ''[object Object]'',
                          status = 503, details = JNull, retryAfter = JUndefined\<rparr>)) \<and>
     (get_prop (parse_body rt (res_text res)) ''message'' = JObj kvs \<and>
      map_of kvs ''toString'' \<noteq> None \<longrightarrow>
        snd (request c rt net verb path body attempt) =
          Inl (TypeError ''Cannot convert object to primitive value'')) \<and>
     (\<not> truthy (get_prop (parse_body rt (res_text res)) ''message'') \<longrightarrow>
        snd (request c rt net verb path body attempt) =
          Inl (ApiError \<lparr>name = ''ServerUnavailableError'',
                          message = (if res_statusText res \<noteq> [] then res_statusText res
                                     else ''Server data temporarily unavailable''),
                          status = 503, details = JNull, retryAfter = JUndefined\<rparr>)) \<and>
     (res_text res = [] \<longrightarrow> get_prop (parse_body rt (res_text res)) ''message'' = JUndefined)"
proof -
  define m where "m = get_prop (parse_body rt (res_text res)) ''message''"
  define v where "v = (if truthy m then m
               else if res_statusText res \<noteq> [] then JStr (res_statusText res)
               else JStr ''Server data temporarily unavailable'')"
  have r: "snd (request c rt net verb path body attempt) = settle rt path res"
    using assms by (simp add: request_settled)
  have v': "js_or (js_or m (JStr (res_statusText res))) (JStr ''Server data temporarily unavailable'') = v"
    by (simp add: v_def js_or_def)
  have s: "settle rt path res =
      (case js_ToString (Number_toString rt) v of
         None \<Rightarrow> Inl (TypeError ''Cannot convert object to primitive value'')
       | Some s \<Rightarrow>
           Inl (ApiError \<lparr>name = ''ServerUnavailableError'', message = s, status = 503,
                           details = JNull, retryAfter = JUndefined\<rparr>))"
    using assms(2)
    by (simp add: settle_def classify_def res_ok_def Let_def ServerUnavailableError_new_def
          m_def [symmetric] v' conversion_error_def OxfordAPIError_new_def split: option.splits)
  have e: "res_text res = [] \<longrightarrow> m = JUndefined"
    by (simp add: m_def parse_body_def)
  show ?thesis
    unfolding Let_def m_def [symmetric] v_def [symmetric] r s
    using e by (auto simp add: v_def)
qed

theorem unavailable_503_witness:
  \<open>(\<lambda>k::nat. Responds (demo_response 503 '''' None ''{"message":"down"}'')) 0
     = Responds (demo_response 503 '''' None ''{"message":"down"}'') \<and>
   res_status (demo_response 503 '''' None ''{"message":"down"}'') = 503 \<and>
   snd (request demo_client demo_runtime
          (\<lambda>k. Responds (demo_response 503 '''' None ''{"message":"down"}''))
          ''GET'' ''/server'' JUndefined 0)
     = Inl (ApiError \<lparr>name = ''ServerUnavailableError'', message = ''down'', status = 503,
                     details = JNull, retryAfter = JUndefined\<rparr>) \<and>
   (\<lambda>k::nat. Responds (demo_response 503 '''' None [])) 0
     = Responds (demo_response 503 '''' None []) \<and>
   res_status (demo_response 503 '''' None []) = 503 \<and>
   snd (request demo_client demo_runtime (\<lambda>k. Responds (demo_response 503 '''' None []))
          ''GET'' ''/server'' JUndefined 0)
     = Inl (ApiError \<lparr>name = ''ServerUnavailableError'',
                     message = ''Server data temporarily unavailable'', status = 503,
                     details = JNull, retryAfter = JUndefined\<rparr>) \<and>
   snd (request demo_client demo_runtime
          (\<lambda>k. Responds (demo_response 503 ''Service Unavailable'' None ''{"message":42}''))
          ''GET'' ''/server'' JUndefined 0)
     = Inl (ApiError \<lparr>name = ''ServerUnavailableError'', message = ''42'', status = 503,
                     details = JNull, retryAfter = JUndefined\<rparr>) \<and>
   snd (request demo_client demo_runtime
          (\<lambda>k. Responds (demo_response 503 ''Service Unavailable'' None
                           ''{"message":{"toString":1}}''))
          ''GET'' ''/server'' JUndefined 0)
     = Inl (TypeError ''Cannot convert object to primitive value'')\<close>
  using unavailable_503 [where net = \<open>\<lambda>k. Responds (demo_response 503 '''' None ''{"message":"down"}'')\<close>
          and attempt = 0 and res = \<open>demo_response 503 '''' None ''{"message":"down"}''\<close>
          and rt = demo_runtime and s = "''down''" and c = demo_client and verb = "''GET''"
          and path = "''/server''" and body = JUndefined]
        unavailable_503 [where net = "\<lambda>k. Responds (demo_response 503 '''' None [])"
          and attempt = 0 and res = "demo_response 503 '''' None []"
          and rt = demo_runtime and c = demo_client and verb = "''GET''"
          and path = "''/server''" and body = JUndefined]
        unavailable_503 [where net = \<open>\<lambda>k. Responds (demo_response 503 ''Service Unavailable'' None ''{"message":42}'')\<close>
          and attempt = 0
          and res = \<open>demo_response 503 ''Service Unavailable'' None ''{"message":42}''\<close>
          and rt = demo_runtime and n = "Finite 42" and c = demo_client and verb = "''GET''"
          and path = "''/server''" and body = JUndefined]
        unavailable_503 [where net = \<open>\<lambda>k. Responds (demo_response 503 ''Service Unavailable'' None ''{"message":{"toString":1}}'')\<close>
          and attempt = 0
          and res = \<open>demo_response 503 ''Service Unavailable'' None ''{"message":{"toString":1}}''\<close>
          and rt = demo_runtime and kvs = "[(''toString'', JNum (Finite 1))]"
          and c = demo_client and verb = "''GET''"
          and path = "''/server''" and body = JUndefined]
  by (simp add: demo_response_def demo_runtime_def parse_body_def)

subsection \<open>Status 403\<close>

text \<open>
  C9: a response with status 403 fails, whatever its body and status text, with the
  \<^verbatim>\<open>AuthError\<close> of status 403, the fixed message and \<^verbatim>\<open>null\<close> details.
\<close>

theorem forbidden_403:
  assumes "net attempt = Responds res" and "res_status res = 403"
  shows "request c rt net verb path body attempt =
           (prelude c verb path body @ [ClearTimeout],
            Inl (ApiError \<lparr>name = ''AuthError'',
                            message = ''Invalid API key or unauthorized access'',
                            status = 403, details = JNull, retryAfter = JUndefined\<rparr>))"
  using assms by (simp add: request_settled settle_def classify_def res_ok_def error_records)

theorem forbidden_403_witness:
  \<open>(\<lambda>k::nat. Responds (demo_response 403 ''Forbidden'' None ''{"message":"down"}'')) 0
     = Responds (demo_response 403 ''Forbidden'' None ''{"message":"down"}'') \<and>
   res_status (demo_response 403 ''Forbidden'' None ''{"message":"down"}'') = 403 \<and>
   request demo_client demo_runtime
     (\<lambda>k. Responds (demo_response 403 ''Forbidden'' None ''{"message":"down"}''))
     ''GET'' ''/server/bans'' JUndefined 0
     = ([SetTimeout 10000, Fetch ''GET'' ''https://api.oxfd.re/v1/server/bans'' ''key'' None,
         ClearTimeout],
        Inl (ApiError \<lparr>name = ''AuthError'',
                        message = ''Invalid API key or unauthorized access'',
                        status = 403, details = JNull, retryAfter = JUndefined\<rparr>))\<close>
  using forbidden_403 [where net = \<open>\<lambda>k. Responds (demo_response 403 ''Forbidden'' None ''{"message":"down"}'')\<close>
          and attempt = 0 and res = \<open>demo_response 403 ''Forbidden'' None ''{"message":"down"}''\<close>
          and rt = demo_runtime and c = demo_client and verb = "''GET''"
          and path = "''/server/bans''" and body = JUndefined]
  by (simp add: demo_response_def demo_client_def prelude_def)

subsection \<open>Success\<close>

text \<open>
  C7: a response with a status from 200 to 299 returns \<^verbatim>\<open>null\<close> for an empty body, what
  \<^verbatim>\<open>JSON.parse\<close> makes of the body when it is JSON, and the object
  \<^verbatim>\<open>{message: text}\<close> for any other body.
\<close>

theorem success_2xx:
  assumes "net attempt = Responds res" and "res_ok res"
  shows "snd (request c rt net verb path body attempt) =
           Inr (if res_text res = [] then JNull
                else (case JSON_parse rt (res_text res) of
                        Some v \<Rightarrow> v
                      | None \<Rightarrow> JObj [(''message'', JStr (res_text res))]))"
proof -
  have "res_status res \<noteq> 429" using assms(2) by (auto simp add: res_ok_def)
  with assms show ?thesis
    by (simp add: request_settled settle_def parse_body_def)
qed

theorem success_2xx_witness:
  \<open>(\<lambda>k::nat. Responds (demo_response 200 ''OK'' None ''{"message":"down"}'')) 0
     = Responds (demo_response 200 ''OK'' None ''{"message":"down"}'') \<and>
   res_ok (demo_response 200 ''OK'' None ''{"message":"down"}'') \<and>
   snd (request demo_client demo_runtime
          (\<lambda>k. Responds (demo_response 200 ''OK'' None ''{"message":"down"}''))
          ''GET'' ''/server'' JUndefined 0)
     = Inr (JObj [(''message'', JStr ''down'')]) \<and>
   res_ok (demo_response 204 ''No Content'' None []) \<and>
   snd (request demo_client demo_runtime (\<lambda>k. Responds (demo_response 204 ''No Content'' None []))
          ''GET'' ''/server'' JUndefined 0)
     = Inr JNull \<and>
   res_ok (demo_response 200 ''OK'' None ''<html>'') \<and>
   snd (request demo_client demo_runtime (\<lambda>k. Responds (demo_response 200 ''OK'' None ''<html>''))
          ''GET'' ''/server'' JUndefined 0)
     = Inr (JObj [(''message'', JStr ''<html>'')])\<close>
  using success_2xx [where net = \<open>\<lambda>k. Responds (demo_response 200 ''OK'' None ''{"message":"down"}'')\<close>
          and attempt = 0 and res = \<open>demo_response 200 ''OK'' None ''{"message":"down"}''\<close>
          and rt = demo_runtime and c = demo_client and verb = "''GET''"
          and path = "''/server''" and body = JUndefined]
        success_2xx [where net = "\<lambda>k. Responds (demo_response 204 ''No Content'' None [])"
          and attempt = 0 and res = "demo_response 204 ''No Content'' None []"
          and rt = demo_runtime and c = demo_client and verb = "''GET''"
          and path = "''/server''" and body = JUndefined]
        success_2xx [where net = "\<lambda>k. Responds (demo_response 200 ''OK'' None ''<html>'')"
          and attempt = 0 and res = "demo_response 200 ''OK'' None ''<html>''"
          and rt = demo_runtime and c = demo_client and verb = "''GET''"
          and path = "''/server''" and body = JUndefined]
  by (simp add: demo_response_def demo_runtime_def res_ok_def)

subsection \<open>Timeout and transport failure\<close>

text \<open>
  C6, as the claim has it, at a body that arrives late: the response \<^verbatim>\<open>200 OK\<close> is there
  before the timer of 10000 ms fires, its body arrives after 60000 ms. The attempt lasts
  beyond the deadline, nothing is aborted, and the call returns the parsed body.
\<close>

theorem timeout_body_counterexample:
  "outlasts_deadline demo_client
     (Responds ((demo_response 200 ''OK'' None ''[1]'')\<lparr>res_body_ms := 60000\<rparr>)) \<and>
   request demo_client demo_runtime
     (\<lambda>k. Responds ((demo_response 200 ''OK'' None ''[1]'')\<lparr>res_body_ms := 60000\<rparr>))
     ''GET'' ''/server'' JUndefined 0
     = ([SetTimeout 10000, Fetch ''GET'' ''https://api.oxfd.re/v1/server'' ''key'' None,
         ClearTimeout],
        Inr (JArr [JNum (Finite 1)]))"
  by code_simp

text \<open>
  C6, amended: when the fetch is still pending as the timer of the attempt fires, the
  request is aborted and the call fails with an \<^verbatim>\<open>OxfordAPIError\<close> of status 408 and
  message \<^verbatim>\<open>Request timed out\<close>; when the fetch rejects with an error of any other name,
  the call fails with an \<^verbatim>\<open>OxfordAPIError\<close> of status 0 whose message is
  \<^verbatim>\<open>Network error: \<close> followed by the message of that error. The timer is set to the
  client's timeout, which is 10000 ms unless the options give another. The deadline ends
  when the response is there: the timer is cleared, the body is read under no deadline,
  and an attempt whose response (of a status other than 429) is there in time is never
  aborted and settles as its status and body say, however late the body arrives.
\<close>

theorem timeout_and_network_errors:
  "(net attempt = Pending_at_deadline \<longrightarrow>
      request c rt net verb path body attempt =
        (prelude c verb path body @ [Abort, ClearTimeout, ClearTimeout],
         Inl (ApiError \<lparr>name = ''OxfordAPIError'', message = ''Request timed out'',
                         status = 408, details = JNull, retryAfter = JUndefined\<rparr>))) \<and>
   (net attempt = Rejects ename emsg \<and> ename \<noteq> ''AbortError'' \<longrightarrow>
      request c rt net verb path body attempt =
        (prelude c verb path body @ [ClearTimeout, ClearTimeout],
         Inl (ApiError \<lparr>name = ''OxfordAPIError'', message = ''Network error: '' @ emsg,
                         status = 0, details = JNull, retryAfter = JUndefined\<rparr>))) \<and>
   (net attempt = Responds res \<and> res_status res \<noteq> 429 \<longrightarrow>
      request c rt net verb path body attempt =
        (prelude c verb path body @ [ClearTimeout], settle rt path res) \<and>
      Abort \<notin> set (fst (request c rt net verb path body attempt))) \<and>
   (outlasts_deadline c (net attempt) \<longleftrightarrow>
      net attempt = Pending_at_deadline \<or>
      (\<exists>res. net attempt = Responds res \<and> timeout c < res_body_ms res)) \<and>
   SetTimeout (timeout c) \<in> set (prelude c verb path body) \<and>
   (key \<noteq> [] \<longrightarrow>
      map_sum id timeout (OxfordAPI_new clock (Some key) mode retries None) = Inr 10000)"
proof -
  have a: "net attempt = Responds res \<and> res_status res \<noteq> 429 \<longrightarrow>
      request c rt net verb path body attempt =
        (prelude c verb path body @ [ClearTimeout], settle rt path res) \<and>
      Abort \<notin> set (fst (request c rt net verb path body attempt))"
    by (auto simp add: request_settled prelude_def)
  have b: "outlasts_deadline c (net attempt) \<longleftrightarrow>
      net attempt = Pending_at_deadline \<or>
      (\<exists>res. net attempt = Responds res \<and> timeout c < res_body_ms res)"
    by (cases "net attempt") (simp_all add: outlasts_deadline_def)
  have rest: "(net attempt = Pending_at_deadline \<longrightarrow>
      request c rt net verb path body attempt =
        (prelude c verb path body @ [Abort, ClearTimeout, ClearTimeout],
         Inl (ApiError \<lparr>name = ''OxfordAPIError'', message = ''Request timed out'',
                         status = 408, details = JNull, retryAfter = JUndefined\<rparr>))) \<and>
   (net attempt = Rejects ename emsg \<and> ename \<noteq> ''AbortError'' \<longrightarrow>
      request c rt net verb path body attempt =
        (prelude c verb path body @ [ClearTimeout, ClearTimeout],
         Inl (ApiError \<lparr>name = ''OxfordAPIError'', message = ''Network error: '' @ emsg,
                         status = 0, details = JNull, retryAfter = JUndefined\<rparr>))) \<and>
   SetTimeout (timeout c) \<in> set (prelude c verb path body) \<and>
   (key \<noteq> [] \<longrightarrow>
      map_sum id timeout (OxfordAPI_new clock (Some key) mode retries None) = Inr 10000)"
    by (simp add: request_pending request_rejected error_records prelude_def OxfordAPI_new_def)
  from a b rest show ?thesis by blast
qed

theorem timeout_and_network_errors_witness:
  "request demo_client demo_runtime (\<lambda>k. Pending_at_deadline) ''GET'' ''/server'' JUndefined 0
     = ([SetTimeout 10000, Fetch ''GET'' ''https://api.oxfd.re/v1/server'' ''key'' None,
         Abort, ClearTimeout, ClearTimeout],
        Inl (ApiError \<lparr>name = ''OxfordAPIError'', message = ''Request timed out'',
                        status = 408, details = JNull, retryAfter = JUndefined\<rparr>)) \<and>
   request demo_client demo_runtime (\<lambda>k. Rejects ''TypeError'' ''fetch failed'')
     ''GET'' ''/server'' JUndefined 0
     = ([SetTimeout 10000, Fetch ''GET'' ''https://api.oxfd.re/v1/server'' ''key'' None,
         ClearTimeout, ClearTimeout],
        Inl (ApiError \<lparr>name = ''OxfordAPIError'', message = ''Network error: fetch failed'',
                        status = 0, details = JNull, retryAfter = JUndefined\<rparr>)) \<and>
   outlasts_deadline demo_client
     (Responds ((demo_response 503 ''Service Unavailable'' None [])\<lparr>res_body_ms := 60000\<rparr>)) \<and>
   request demo_client demo_runtime
     (\<lambda>k. Responds ((demo_response 503 ''Service Unavailable'' None [])\<lparr>res_body_ms := 60000\<rparr>))
     ''GET'' ''/server'' JUndefined 0
     = ([SetTimeout 10000, Fetch ''GET'' ''https://api.oxfd.re/v1/server'' ''key'' None,
         ClearTimeout],
        Inl (ApiError \<lparr>name = ''ServerUnavailableError'', message = ''Service Unavailable'',
                        status = 503, details = JNull, retryAfter = JUndefined\<rparr>)) \<and>
   map_sum id timeout (OxfordAPI_new (\<lambda>k. 0) (Some ''key'') None None None) = Inr 10000"
  using timeout_and_network_errors [where net = "\<lambda>k. Pending_at_deadline" and attempt = 0
          and c = demo_client and rt = demo_runtime and verb = "''GET''"
          and path = "''/server''" and body = JUndefined and key = "''key''"
          and clock = "\<lambda>k. 0" and mode = None and retries = None]
        timeout_and_network_errors [where net = "\<lambda>k. Rejects ''TypeError'' ''fetch failed''"
          and attempt = 0 and ename = "''TypeError''" and emsg = "''fetch failed''"
          and c = demo_client and rt = demo_runtime and verb = "''GET''"
          and path = "''/server''" and body = JUndefined]
        timeout_and_network_errors [where net = "\<lambda>k. Responds ((demo_response 503 ''Service Unavailable'' None [])\<lparr>res_body_ms := 60000\<rparr>)"
          and attempt = 0
          and res = "(demo_response 503 ''Service Unavailable'' None [])\<lparr>res_body_ms := 60000\<rparr>"
          and c = demo_client and rt = demo_runtime and verb = "''GET''"
          and path = "''/server''" and body = JUndefined]
  by (simp add: demo_client_def demo_response_def demo_runtime_def prelude_def settle_def
        classify_def res_ok_def parse_body_def ServerUnavailableError_new_def js_or_def
        OxfordAPIError_new_def outlasts_deadline_def Let_def)

subsection \<open>Validation of the command\<close>

text \<open>
  C8: \<^verbatim>\<open>executeCommand\<close> with an argument that is not a string, or is the empty string,
  throws the \<^verbatim>\<open>TypeError\<close> and has no effect: no token is taken and no request is sent.
\<close>

theorem invalid_command:
  "(case command of JStr s \<Rightarrow> s = [] | _ \<Rightarrow> True) \<Longrightarrow>
   executeCommand c rt net command =
     ([], Inl (TypeError ''[oxfd.js] command must be a non-empty string''))"
  by (cases command) (simp_all add: executeCommand_def)

theorem invalid_command_witness:
  "executeCommand demo_client demo_runtime (\<lambda>k. Pending_at_deadline) (JStr [])
     = ([], Inl (TypeError ''[oxfd.js] command must be a non-empty string'')) \<and>
   executeCommand demo_client demo_runtime (\<lambda>k. Pending_at_deadline) (JNum (Finite 7))
     = ([], Inl (TypeError ''[oxfd.js] command must be a non-empty string'')) \<and>
   executeCommand demo_client demo_runtime (\<lambda>k. Pending_at_deadline) JUndefined
     = ([], Inl (TypeError ''[oxfd.js] command must be a non-empty string''))"
  using invalid_command [of "JStr []" demo_client demo_runtime "\<lambda>k. Pending_at_deadline"]
        invalid_command [of "JNum (Finite 7)" demo_client demo_runtime "\<lambda>k. Pending_at_deadline"]
        invalid_command [of JUndefined demo_client demo_runtime "\<lambda>k. Pending_at_deadline"]
  by simp

section \<open>Rate-limit modes\<close>

subsection \<open>The rate of a fixed interval\<close>




subsection \<open>The three modes\<close>




section \<open>Grouped managers\<close>

text \<open>
  C10: every method of \<^verbatim>\<open>api.servers\<close>, \<^verbatim>\<open>api.logs\<close> and \<^verbatim>\<open>api.commands\<close> gives
  what the method of the client it forwards to gives, for the same argument and the same
  environment.
\<close>

theorem managers_forward:
  "Servers_getServer (servers c) rt net = getServer c rt net \<and>
   Servers_getPlayers (servers c) rt net = getPlayers c rt net \<and>
   Servers_getQueue (servers c) rt net = getQueue c rt net \<and>
   Servers_getBans (servers c) rt net = getBans c rt net \<and>
   Servers_getVehicles (servers c) rt net = getVehicles c rt net \<and>
   Servers_getRobberies (servers c) rt net = getRobberies c rt net \<and>
   Logs_getKillLogs (logs c) rt net = getKillLogs c rt net \<and>
   Logs_getCommandLogs (logs c) rt net = getCommandLogs c rt net \<and>
   Logs_getModCalls (logs c) rt net = getModCalls c rt net \<and>
   Logs_getRadioCalls (logs c) rt net = getRadioCalls c rt net \<and>
   Logs_getJoinLogs (logs c) rt net = getJoinLogs c rt net \<and>
   Commands_execute (commands c) rt net command = executeCommand c rt net command"
  by (simp add: servers_def logs_def commands_def)

theorem managers_forward_witness:
  "Commands_execute (commands demo_client) demo_runtime (\<lambda>k. Pending_at_deadline) (JStr [])
     = ([], Inl (TypeError ''[oxfd.js] command must be a non-empty string'')) \<and>
   Commands_execute (commands demo_client) demo_runtime (\<lambda>k. Pending_at_deadline) (JStr ''kick x'')
     = ([SetTimeout 10000,
         Fetch ''POST'' ''https://api.oxfd.re/v1/server/command'' ''key''
           (Some (JObj [(''command'', JStr ''kick x'')])),
         Abort, ClearTimeout, ClearTimeout],
        Inl (ApiError \<lparr>name = ''OxfordAPIError'', message = ''Request timed out'',
                        status = 408, details = JNull, retryAfter = JUndefined\<rparr>)) \<and>
   Logs_getJoinLogs (logs demo_client) demo_runtime (\<lambda>k. Pending_at_deadline)
     = ([SetTimeout 10000, Fetch ''GET'' ''https://api.oxfd.re/v1/server/joinlogs'' ''key'' None,
         Abort, ClearTimeout, ClearTimeout],
        Inl (ApiError \<lparr>name = ''OxfordAPIError'', message = ''Request timed out'',
                        status = 408, details = JNull, retryAfter = JUndefined\<rparr>))"
  using managers_forward [of demo_client demo_runtime "\<lambda>k. Pending_at_deadline" "JStr []"]
        managers_forward [of demo_client demo_runtime "\<lambda>k. Pending_at_deadline" "JStr ''kick x''"]
  by (simp add: executeCommand_def post_def getJoinLogs_def get_def request_pending
        error_records prelude_def demo_client_def)

end
